theory Spec2Isabelle
  imports Complex_Main "HOL-Library.Word"
begin

section \<open>JSON values and panics\<close>

text \<open>
  The evaluator works on Go's generic JSON tree (\<^verbatim>\<open>any\<close>): \<^verbatim>\<open>nil\<close>, \<^verbatim>\<open>bool\<close>, the integer
  types, the float types, \<^verbatim>\<open>string\<close>, \<^verbatim>\<open>[]any\<close> and \<^verbatim>\<open>map[string]any\<close>.
  All integer widths are carried by \<open>JInt\<close> with their mathematical value, floats by
  \<open>JFloat\<close> (finite values only; a JSON document holds no NaN or infinity).
  A Go map has no iteration order; an object is an association list whose order stands
  for the order in which \<^verbatim>\<open>range\<close> happens to visit the map. Strings are byte lists.
\<close>

datatype json =
    JNull
  | JBool bool
  | JInt int
  | JFloat real
  | JString string
  | JArray "json list"
  | JObject "(string \<times> json) list"

text \<open>A Go panic is a value: every function that can panic returns \<open>panic + 'a\<close>.\<close>

datatype panic =
    NilDereference
  | UnexpectedArgument
  | IndexOutOfRange

definition bindP :: "panic + 'a \<Rightarrow> ('a \<Rightarrow> panic + 'b) \<Rightarrow> panic + 'b" where
  "bindP m f = (case m of Inl e \<Rightarrow> Inl e | Inr x \<Rightarrow> f x)"

text \<open>\<^verbatim>\<open>ret = append(ret, more...)\<close> where computing either side may panic.\<close>

definition appP :: "panic + 'a list \<Rightarrow> panic + 'a list \<Rightarrow> panic + 'a list" where
  "appP a b = bindP a (\<lambda>x. bindP b (\<lambda>y. Inr (x @ y)))"

text \<open>\<^verbatim>\<open>xs[i]\<close> on a Go slice panics out of range.\<close>

definition index_at :: "'a list \<Rightarrow> nat \<Rightarrow> panic + 'a" where
  "index_at xs i = (if i < length xs then Inr (xs ! i) else Inl IndexOutOfRange)"

section \<open>Path types and function types (function.go)\<close>

text \<open>\<^verbatim>\<open>type PathType uint8\<close> with \<^verbatim>\<open>iota + 1\<close> constants.\<close>

type_synonym PathType = "8 word"

definition PathValue :: PathType where "PathValue = 1"
definition PathLogical :: PathType where "PathLogical = 2"
definition PathNodes :: PathType where "PathNodes = 3"

text \<open>\<^verbatim>\<open>type FuncType uint8\<close> with \<^verbatim>\<open>iota + 1\<close> constants.\<close>

type_synonym FuncType = "8 word"

definition FuncLiteral :: FuncType where "FuncLiteral = 1"
definition FuncSingularQuery :: FuncType where "FuncSingularQuery = 2"
definition FuncValue :: FuncType where "FuncValue = 3"
definition FuncNodeList :: FuncType where "FuncNodeList = 4"
definition FuncLogical :: FuncType where "FuncLogical = 5"

text \<open>\<^verbatim>\<open>func (ft FuncType) convertsTo(pv PathType) bool\<close>: the switch, case by case.\<close>

definition convertsTo :: "FuncType \<Rightarrow> PathType \<Rightarrow> bool" where
  "convertsTo ft pv =
     (if ft = FuncLiteral \<or> ft = FuncValue then pv = PathValue
      else if ft = FuncSingularQuery then True
      else if ft = FuncNodeList then pv \<noteq> PathValue
      else if ft = FuncLogical then pv = PathLogical
      else False)"

subsection \<open>JSONPath values\<close>

datatype LogicalType = LogicalFalse | LogicalTrue

definition logicalFrom :: "bool \<Rightarrow> LogicalType" where
  "logicalFrom b = (if b then LogicalTrue else LogicalFalse)"

definition Bool :: "LogicalType \<Rightarrow> bool" where
  "Bool lt = (lt = LogicalTrue)"

text \<open>
  The interface \<^verbatim>\<open>JSONPathValue\<close> has three implementations; a value of the interface
  type is a \<open>JSONPathValue option\<close>, \<open>None\<close> being the nil interface (\<^emph>\<open>nothing\<close>).
\<close>

datatype JSONPathValue =
    NodesType "json list"
  | LogicalType LogicalType
  | ValueType json

text \<open>
  \<^verbatim>\<open>newNodesTypeFrom\<close>, \<^verbatim>\<open>newLogicalTypeFrom\<close> and \<^verbatim>\<open>newValueTypeFrom\<close>. The last returns
  a \<^verbatim>\<open>*ValueType\<close>: \<open>None\<close> is the nil pointer it returns for the nil interface.
\<close>

definition newNodesTypeFrom :: "JSONPathValue option \<Rightarrow> panic + json list" where
  "newNodesTypeFrom v =
     (case v of
        Some (NodesType ns) \<Rightarrow> Inr ns
      | Some (ValueType j) \<Rightarrow> Inr [j]
      | None \<Rightarrow> Inr []
      | Some (LogicalType _) \<Rightarrow> Inl UnexpectedArgument)"

definition newLogicalTypeFrom :: "JSONPathValue option \<Rightarrow> panic + LogicalType" where
  "newLogicalTypeFrom v =
     (case v of
        Some (LogicalType l) \<Rightarrow> Inr l
      | Some (NodesType ns) \<Rightarrow> Inr (logicalFrom (length ns > 0))
      | None \<Rightarrow> Inr LogicalFalse
      | Some (ValueType _) \<Rightarrow> Inl UnexpectedArgument)"

definition newValueTypeFrom :: "JSONPathValue option \<Rightarrow> panic + json option" where
  "newValueTypeFrom v =
     (case v of
        Some (ValueType j) \<Rightarrow> Inr (Some j)
      | None \<Rightarrow> Inr None
      | Some _ \<Rightarrow> Inl UnexpectedArgument)"

text \<open>Reading the field \<^verbatim>\<open>.any\<close> through a \<^verbatim>\<open>*ValueType\<close>: a nil pointer panics.\<close>

definition any_of :: "json option \<Rightarrow> panic + json" where
  "any_of p = (case p of None \<Rightarrow> Inl NilDereference | Some j \<Rightarrow> Inr j)"

text \<open>\<^verbatim>\<open>func (vt *ValueType) testFilter(_, _ any) bool\<close>: the type switch on \<^verbatim>\<open>vt.any\<close>.\<close>

definition ValueType_testFilter :: "json \<Rightarrow> bool" where
  "ValueType_testFilter v =
     (case v of
        JNull \<Rightarrow> False
      | JBool b \<Rightarrow> b
      | JInt i \<Rightarrow> i \<noteq> 0
      | JFloat f \<Rightarrow> f \<noteq> 0
      | _ \<Rightarrow> True)"

section \<open>Regular expressions\<close>

text \<open>
  \<^verbatim>\<open>compileRegex\<close> calls Go's packages \<^verbatim>\<open>regexp/syntax\<close> and \<^verbatim>\<open>regexp\<close>, which are not part
  of the repository. They are modelled on a fragment of the syntax: literal characters,
  \<^verbatim>\<open>.\<close>, top-level alternation \<^verbatim>\<open>|\<close>, the anchors \<^verbatim>\<open>\A\<close> and \<^verbatim>\<open>\z\<close>, and escaped
  punctuation. \<open>syntax_Parse\<close> returns \<open>None\<close> on every other pattern, whether Go would
  compile it or not, so only patterns of the fragment are evaluated below. The tree is
  \<^verbatim>\<open>syntax.Regexp\<close> with its fields \<^verbatim>\<open>Op\<close>, \<^verbatim>\<open>Sub\<close> and \<^verbatim>\<open>Rune\<close>; alternation binds weaker
  than concatenation, as in Go.
\<close>

datatype Op =
    OpEmptyMatch | OpLiteral | OpCharClass | OpAnyChar | OpBeginText | OpEndText
  | OpConcat | OpAlternate

datatype Regexp = Regexp (Op: Op) (Sub: "Regexp list") (Rune: "char list")

definition is_meta :: "char \<Rightarrow> bool" where
  "is_meta c = (c \<in> set (CHR 0x5C # ''.+*?()|[]{}^$''))"

text \<open>
  \<open>parse_branches s cur alts\<close>: \<open>cur\<close> is the concatenation being read, \<open>alts\<close> the
  alternatives already closed by a \<^verbatim>\<open>|\<close>. \<open>CHR 0x5C\<close> is the backslash.
\<close>

fun parse_branches :: "string \<Rightarrow> Regexp list \<Rightarrow> Regexp list \<Rightarrow> Regexp option" where
  "parse_branches [] cur alts = Some (Regexp OpAlternate (alts @ [Regexp OpConcat cur []]) [])"
| "parse_branches (c # s) cur alts =
     (if c = CHR ''|'' then parse_branches s [] (alts @ [Regexp OpConcat cur []])
      else if c = CHR ''.'' then parse_branches s (cur @ [Regexp OpAnyChar [] []]) alts
      else if c = CHR 0x5C then
        (case s of
           [] \<Rightarrow> None
         | d # s' \<Rightarrow>
             if d = CHR ''A'' then parse_branches s' (cur @ [Regexp OpBeginText [] []]) alts
             else if d = CHR ''z'' then parse_branches s' (cur @ [Regexp OpEndText [] []]) alts
             else if is_meta d then parse_branches s' (cur @ [Regexp OpLiteral [] [d]]) alts
             else None)
      else if is_meta c then None
      else parse_branches s (cur @ [Regexp OpLiteral [] [c]]) alts)"

text \<open>\<^verbatim>\<open>syntax.Parse(str, syntax.Perl|syntax.DotNL)\<close> on the fragment.\<close>

definition syntax_Parse :: "string \<Rightarrow> Regexp option" where
  "syntax_Parse str = parse_branches str [] []"

text \<open>
  \<^verbatim>\<open>var clrf, _ = syntax.Parse("[^\n\r]", syntax.Perl)\<close>: a character class given by its
  ranges (bytes 0-9, 11-12 and 14-255).
\<close>

definition clrf :: Regexp where
  "clrf = Regexp OpCharClass []
     [char_of (0::nat), char_of (9::nat), char_of (11::nat), char_of (12::nat),
      char_of (14::nat), char_of (255::nat)]"

fun replaceDot :: "Regexp \<Rightarrow> Regexp" where
  "replaceDot (Regexp op sub rune) =
     (if op = OpAnyChar then clrf else Regexp op (map replaceDot sub) rune)"

text \<open>
  \<^verbatim>\<open>regexp.Compile(r.String())\<close>: printing the tree and compiling it again gives a matcher
  for the same tree; its error is dropped by \<^verbatim>\<open>compileRegex\<close>.
\<close>

definition regexp_Compile :: "Regexp \<Rightarrow> Regexp option" where
  "regexp_Compile r = Some r"

definition compileRegex :: "string \<Rightarrow> Regexp option" where
  "compileRegex str =
     (case syntax_Parse str of
        None \<Rightarrow> None
      | Some r \<Rightarrow> regexp_Compile (replaceDot r))"

fun in_class :: "char \<Rightarrow> char list \<Rightarrow> bool" where
  "in_class c (lo # hi # rest) =
     ((of_char lo \<le> (of_char c :: nat) \<and> (of_char c :: nat) \<le> of_char hi) \<or> in_class c rest)"
| "in_class c _ = False"

text \<open>\<open>ends s re i\<close>: the positions where a match of \<open>re\<close> that starts at position \<open>i\<close> of \<open>s\<close> can end.\<close>

fun ends :: "string \<Rightarrow> Regexp \<Rightarrow> nat \<Rightarrow> nat list" where
  "ends s (Regexp OpEmptyMatch sub rune) i = [i]"
| "ends s (Regexp OpLiteral sub rune) i =
     (if take (length rune) (drop i s) = rune then [i + length rune] else [])"
| "ends s (Regexp OpCharClass sub rune) i =
     (if i < length s \<and> in_class (s ! i) rune then [Suc i] else [])"
| "ends s (Regexp OpAnyChar sub rune) i = (if i < length s then [Suc i] else [])"
| "ends s (Regexp OpBeginText sub rune) i = (if i = 0 then [i] else [])"
| "ends s (Regexp OpEndText sub rune) i = (if i = length s then [i] else [])"
| "ends s (Regexp OpConcat sub rune) i =
     foldl (\<lambda>ps r. concat (map (ends s r) ps)) [i] sub"
| "ends s (Regexp OpAlternate sub rune) i = concat (map (\<lambda>r. ends s r i) sub)"

text \<open>\<^verbatim>\<open>(*Regexp).MatchString\<close>: the expression matches somewhere in \<open>s\<close>.\<close>

definition MatchString :: "Regexp \<Rightarrow> string \<Rightarrow> bool" where
  "MatchString re s = list_ex (\<lambda>i. ends s re i \<noteq> []) [0..<Suc (length s)]"

text \<open>
  What the specification asks of \<^verbatim>\<open>match\<close>: the pattern matches the whole of \<open>s\<close>, from
  its first position to its last.
\<close>

definition full_match :: "Regexp \<Rightarrow> string \<Rightarrow> bool" where
  "full_match re s = (length s \<in> set (ends s re 0))"

section \<open>The built-in functions (function.go)\<close>

text \<open>
  \<^verbatim>\<open>utf8.RuneCountInString\<close> on well-formed UTF-8: the bytes that are not continuation
  bytes.
\<close>

definition RuneCountInString :: "string \<Rightarrow> nat" where
  "RuneCountInString s =
     length (filter (\<lambda>c. \<not> (128 \<le> (of_char c :: nat) \<and> (of_char c :: nat) < 192)) s)"

definition lengthFunc :: "JSONPathValue option list \<Rightarrow> panic + JSONPathValue option" where
  "lengthFunc jv =
     bindP (index_at jv 0) (\<lambda>a. bindP (newValueTypeFrom a) (\<lambda>v.
       case v of
         None \<Rightarrow> Inr None
       | Some (JString s) \<Rightarrow> Inr (Some (ValueType (JInt (int (RuneCountInString s)))))
       | Some (JArray xs) \<Rightarrow> Inr (Some (ValueType (JInt (int (length xs)))))
       | Some (JObject kvs) \<Rightarrow> Inr (Some (ValueType (JInt (int (length kvs)))))
       | Some _ \<Rightarrow> Inr None))"

definition countFunc :: "JSONPathValue option list \<Rightarrow> panic + JSONPathValue option" where
  "countFunc jv =
     bindP (index_at jv 0) (\<lambda>a. bindP (newNodesTypeFrom a) (\<lambda>ns.
       Inr (Some (ValueType (JInt (int (length ns)))))))"

definition valueFunc :: "JSONPathValue option list \<Rightarrow> panic + JSONPathValue option" where
  "valueFunc jv =
     bindP (index_at jv 0) (\<lambda>a. bindP (newNodesTypeFrom a) (\<lambda>nodes.
       if length nodes = 1 then Inr (Some (ValueType (nodes ! 0))) else Inr None))"

text \<open>\<^verbatim>\<open>newValueTypeFrom(jv[i]).any\<close>, the expression \<^verbatim>\<open>matchFunc\<close> and \<^verbatim>\<open>searchFunc\<close> evaluate.\<close>

definition arg_any :: "JSONPathValue option list \<Rightarrow> nat \<Rightarrow> panic + json" where
  "arg_any jv i = bindP (index_at jv i) (\<lambda>a. bindP (newValueTypeFrom a) any_of)"

text \<open>
  \<^verbatim>\<open>matchFunc\<close>: the second operand is read only when the first is a string; the pattern
  is compiled from the text \<^verbatim>\<open>`\A` + r + `\z`\<close>.
\<close>

definition matchFunc :: "JSONPathValue option list \<Rightarrow> panic + JSONPathValue option" where
  "matchFunc jv =
     bindP (arg_any jv 0) (\<lambda>a0.
       case a0 of
         JString v \<Rightarrow>
           bindP (arg_any jv 1) (\<lambda>a1.
             case a1 of
               JString r \<Rightarrow>
                 (case compileRegex ([CHR 0x5C, CHR ''A''] @ r @ [CHR 0x5C, CHR ''z'']) of
                    Some rc \<Rightarrow> Inr (Some (LogicalType (logicalFrom (MatchString rc v))))
                  | None \<Rightarrow> Inr (Some (LogicalType LogicalFalse)))
             | _ \<Rightarrow> Inr (Some (LogicalType LogicalFalse)))
       | _ \<Rightarrow> Inr (Some (LogicalType LogicalFalse)))"

definition searchFunc :: "JSONPathValue option list \<Rightarrow> panic + JSONPathValue option" where
  "searchFunc jv =
     bindP (arg_any jv 0) (\<lambda>a0.
       case a0 of
         JString v \<Rightarrow>
           bindP (arg_any jv 1) (\<lambda>a1.
             case a1 of
               JString r \<Rightarrow>
                 (case compileRegex r of
                    Some rc \<Rightarrow> Inr (Some (LogicalType (logicalFrom (MatchString rc v))))
                  | None \<Rightarrow> Inr (Some (LogicalType LogicalFalse)))
             | _ \<Rightarrow> Inr (Some (LogicalType LogicalFalse)))
       | _ \<Rightarrow> Inr (Some (LogicalType LogicalFalse)))"

subsection \<open>Function expressions\<close>

text \<open>
  The interface \<^verbatim>\<open>FunctionExprArg\<close> is the record of its methods; \<^verbatim>\<open>Function\<close> and
  \<^verbatim>\<open>FunctionExpr\<close> are the structs (\<open>FuncName\<close> is the field \<^verbatim>\<open>Name\<close>). \<open>Validate\<close> is
  given the kinds (\<^verbatim>\<open>asTypeKind()\<close>) of the arguments, all that the checks of this file
  read of them.
\<close>

record FunctionExprArg =
  execute :: "json \<Rightarrow> json \<Rightarrow> panic + JSONPathValue option"
  asTypeKind :: FuncType

record Function =
  FuncName :: string
  ResultType :: FuncType
  Validate :: "FuncType list \<Rightarrow> string option"
  Evaluate :: "JSONPathValue option list \<Rightarrow> panic + JSONPathValue option"

record FunctionExpr =
  args :: "FunctionExprArg list"
  fn :: Function

fun execute_args ::
  "FunctionExprArg list \<Rightarrow> json \<Rightarrow> json \<Rightarrow> panic + JSONPathValue option list" where
  "execute_args [] current root' = Inr []"
| "execute_args (a # as) current root' =
     bindP (execute a current root') (\<lambda>r.
       bindP (execute_args as current root') (\<lambda>rs. Inr (r # rs)))"

definition FunctionExpr_execute ::
  "FunctionExpr \<Rightarrow> json \<Rightarrow> json \<Rightarrow> panic + JSONPathValue option" where
  "FunctionExpr_execute fe current root' =
     bindP (execute_args (args fe) current root') (Evaluate (fn fe))"

definition FunctionExpr_testFilter :: "FunctionExpr \<Rightarrow> json \<Rightarrow> json \<Rightarrow> panic + bool" where
  "FunctionExpr_testFilter fe current root' =
     bindP (FunctionExpr_execute fe current root') (\<lambda>res.
       case res of
         Some (NodesType ns) \<Rightarrow> Inr (length ns > 0)
       | Some (ValueType v) \<Rightarrow> Inr (ValueType_testFilter v)
       | Some (LogicalType l) \<Rightarrow> Inr (Bool l)
       | None \<Rightarrow> Inr False)"

definition NotFuncExpr_testFilter :: "FunctionExpr \<Rightarrow> json \<Rightarrow> json \<Rightarrow> panic + bool" where
  "NotFuncExpr_testFilter nf current root' =
     bindP (FunctionExpr_testFilter nf current root') (\<lambda>b. Inr (\<not> b))"

definition literalArg :: "json \<Rightarrow> FunctionExprArg" where
  "literalArg literal =
     \<lparr>execute = (\<lambda>_ _. Inr (Some (ValueType literal))), asTypeKind = FuncLiteral\<rparr>"

section \<open>Filter expressions (filter.go)\<close>

text \<open>
  The interface \<^verbatim>\<open>basicExpr\<close> is its method \<^verbatim>\<open>testFilter\<close>;
  \<^verbatim>\<open>type LogicalAndExpr []basicExpr\<close> and \<^verbatim>\<open>type LogicalOrExpr []LogicalAndExpr\<close>.
\<close>

type_synonym basicExpr = "json \<Rightarrow> json \<Rightarrow> panic + bool"
type_synonym LogicalAndExpr = "basicExpr list"
type_synonym LogicalOrExpr = "LogicalAndExpr list"

fun LogicalAndExpr_testFilter :: "LogicalAndExpr \<Rightarrow> json \<Rightarrow> json \<Rightarrow> panic + bool" where
  "LogicalAndExpr_testFilter [] current root' = Inr True"
| "LogicalAndExpr_testFilter (e # la) current root' =
     bindP (e current root') (\<lambda>b.
       if \<not> b then Inr False else LogicalAndExpr_testFilter la current root')"

fun LogicalOrExpr_testFilter :: "LogicalOrExpr \<Rightarrow> json \<Rightarrow> json \<Rightarrow> panic + bool" where
  "LogicalOrExpr_testFilter [] current root' = Inr False"
| "LogicalOrExpr_testFilter (e # lo) current root' =
     bindP (LogicalAndExpr_testFilter e current root') (\<lambda>b.
       if b then Inr True else LogicalOrExpr_testFilter lo current root')"

definition NotParenExpr_testFilter :: "LogicalOrExpr \<Rightarrow> json \<Rightarrow> json \<Rightarrow> panic + bool" where
  "NotParenExpr_testFilter np current root' =
     bindP (LogicalOrExpr_testFilter np current root') (\<lambda>b. Inr (\<not> b))"

section \<open>Selectors\<close>

text \<open>
  Modelled from the spec: the selectors' \<^verbatim>\<open>Select\<close> methods and \<^verbatim>\<open>SliceSelector.bounds\<close>
  (selector.go is not among the sources; its tests are). Section 4.3 of the
  specification gives the five selectors and the slice bounds; the loop of a slice is
  the one of \<^verbatim>\<open>extract\<close> in \<^verbatim>\<open>TestSliceBounds\<close>, and \<open>(0, 0)\<close> for a zero step is what
  that test expects of \<^verbatim>\<open>bounds\<close>.

  The parameters of a slice, the length and the loop counter are Go \<^verbatim>\<open>int\<close>s: 64-bit
  two's complement words, read by \<open>sint\<close> and compared by \<open><s\<close>; \<open>+\<close> and \<open>-\<close> wrap around.
\<close>

type_synonym go_int = "64 word"

definition normalize :: "go_int \<Rightarrow> go_int \<Rightarrow> go_int" where
  "normalize x n = (if x <s 0 then x + n else x)"

definition clamp :: "go_int \<Rightarrow> go_int \<Rightarrow> go_int \<Rightarrow> go_int" where
  "clamp x lo hi = (if x <s lo then lo else if hi <s x then hi else x)"

definition bounds ::
  "go_int option \<Rightarrow> go_int option \<Rightarrow> go_int \<Rightarrow> go_int \<Rightarrow> go_int \<times> go_int" where
  "bounds start end' step n =
     (if step = 0 then (0, 0)
      else
        let defaultStart = (if 0 <s step then 0 else n - 1);
            defaultEnd = (if 0 <s step then n else - 1);
            s = (case start of None \<Rightarrow> defaultStart | Some x \<Rightarrow> normalize x n);
            e = (case end' of None \<Rightarrow> defaultEnd | Some x \<Rightarrow> normalize x n)
        in if 0 <s step then (clamp s 0 n, clamp e 0 n)
           else (clamp e (- 1) (n - 1), clamp s (- 1) (n - 1)))"

text \<open>\<^verbatim>\<open>json[i]\<close> with a Go \<^verbatim>\<open>int\<close> index: a panic outside \<open>0 \<le> i < len(json)\<close>.\<close>

definition elem_at :: "json list \<Rightarrow> go_int \<Rightarrow> panic + json" where
  "elem_at xs i =
     (if 0 \<le> sint i \<and> sint i < int (length xs) then Inr (xs ! nat (sint i))
      else Inl IndexOutOfRange)"

text \<open>
  \<^verbatim>\<open>for i := lower; i < upper; i += s.step { res = append(res, json[i]) }\<close>, run under
  \<^verbatim>\<open>case s.step > 0\<close>. The sign of the step is part of the guard. The loop ends: an index
  that was read lies in the array, and the next one is either greater or, when
  \<^verbatim>\<open>i += s.step\<close> has wrapped around, negative, where \<^verbatim>\<open>json[i]\<close> panics.
\<close>

function slice_up :: "json list \<Rightarrow> go_int \<Rightarrow> go_int \<Rightarrow> go_int \<Rightarrow> panic + json list" where
  "slice_up xs i upper step =
     (if 0 <s step \<and> i <s upper
      then (case elem_at xs i of
              Inl p \<Rightarrow> Inl p
            | Inr v \<Rightarrow> bindP (slice_up xs (i + step) upper step) (\<lambda>vs. Inr (v # vs)))
      else Inr [])"
  by pat_completeness auto
termination
proof (relation "measure (\<lambda>(xs, i, upper, step). if sint i < 0 then 0 else nat (2 ^ 63 - sint i))")
  fix xs :: "json list" and i upper step :: go_int and v
  assume g: "0 <s step \<and> i <s upper" and e: "elem_at xs i = Inr v"
  from e have i0: "0 \<le> sint i" by (simp add: elem_at_def split: if_splits)
  from g have st: "0 < sint step" by (simp add: word_sless_alt)
  have lt: "sint i < 2 ^ 63" "sint step < 2 ^ 63"
    using sint_lt [of i] sint_lt [of step] by simp_all
  have s: "sint (i + step) = signed_take_bit 63 (sint i + sint step)"
    by (simp add: sint_word_ariths)
  have "sint (i + step) < 0 \<or> sint i < sint (i + step)"
  proof (cases "sint i + sint step < 2 ^ 63")
    case True
    then have "signed_take_bit 63 (sint i + sint step) = sint i + sint step"
      using i0 st by (intro signed_take_bit_int_eq_self) simp_all
    then show ?thesis using s st by simp
  next
    case False
    then have "2 ^ 63 \<le> sint i + sint step" by simp
    from signed_take_bit_int_less_eq [OF this]
    have "signed_take_bit 63 (sint i + sint step) \<le> sint i + sint step - 2 ^ 64" by simp
    moreover have "\<And>t a b :: int. a < 2 ^ 63 \<Longrightarrow> b < 2 ^ 63 \<Longrightarrow> t \<le> a + b - 2 ^ 64 \<Longrightarrow> t < 0"
      by simp
    ultimately have "signed_take_bit 63 (sint i + sint step) < 0" using lt by blast
    then show ?thesis using s by simp
  qed
  then show "((xs, i + step, upper, step), (xs, i, upper, step))
      \<in> measure (\<lambda>(xs, i, upper, step). if sint i < 0 then 0 else nat (2 ^ 63 - sint i))"
    using i0 lt by auto
qed simp

text \<open>
  \<^verbatim>\<open>for i := upper; lower < i; i += s.step { res = append(res, json[i]) }\<close>, run under
  \<^verbatim>\<open>case s.step < 0\<close>. From an index in the array a negative step never wraps around.
\<close>

function slice_down :: "json list \<Rightarrow> go_int \<Rightarrow> go_int \<Rightarrow> go_int \<Rightarrow> panic + json list" where
  "slice_down xs i lower step =
     (if step <s 0 \<and> lower <s i
      then (case elem_at xs i of
              Inl p \<Rightarrow> Inl p
            | Inr v \<Rightarrow> bindP (slice_down xs (i + step) lower step) (\<lambda>vs. Inr (v # vs)))
      else Inr [])"
  by pat_completeness auto
termination
proof (relation "measure (\<lambda>(xs, i, lower, step). nat (sint i + 2 ^ 63))")
  fix xs :: "json list" and i lower step :: go_int and v
  assume g: "step <s 0 \<and> lower <s i" and e: "elem_at xs i = Inr v"
  from e have i0: "0 \<le> sint i" by (simp add: elem_at_def split: if_splits)
  from g have st: "sint step < 0" by (simp add: word_sless_alt)
  have "- (2 ^ 63) \<le> sint step" "sint i < 2 ^ 63"
    using sint_ge [of step] sint_lt [of i] by simp_all
  then have "signed_take_bit 63 (sint i + sint step) = sint i + sint step"
    using i0 st by (intro signed_take_bit_int_eq_self) simp_all
  then have "sint (i + step) = sint i + sint step" by (simp add: sint_word_ariths)
  then show "((xs, i + step, lower, step), (xs, i, lower, step))
      \<in> measure (\<lambda>(xs, i, lower, step). nat (sint i + 2 ^ 63))"
    using i0 st by simp
qed simp

declare slice_up.simps [simp del] slice_down.simps [simp del]

text \<open>\<^verbatim>\<open>lower, upper := s.bounds(len(json))\<close> and the \<^verbatim>\<open>switch\<close> on the sign of the step.\<close>

definition slice_select ::
  "go_int option \<Rightarrow> go_int option \<Rightarrow> go_int \<Rightarrow> json list \<Rightarrow> panic + json list" where
  "slice_select start end' step xs =
     (let (lower, upper) = bounds start end' step (word_of_nat (length xs))
      in if 0 <s step then slice_up xs lower upper step
         else if step <s 0 then slice_down xs upper lower step
         else Inr [])"

subsection \<open>The reference bounds formula over the integers\<close>

text \<open>
  The slice of section 4.3 as the specification words it, on mathematical integers:
  the normalization, the defaults, the clamped bounds, and the iteration from
  \<open>lower\<close> upward in steps of \<open>step\<close> while \<open>i < upper\<close>, or from \<open>upper\<close> downward while
  \<open>i > lower\<close>. This is what the loop above is compared with.
\<close>

definition ref_normalize :: "int \<Rightarrow> int \<Rightarrow> int" where
  "ref_normalize x n = (if x < 0 then x + n else x)"

definition ref_clamp :: "int \<Rightarrow> int \<Rightarrow> int \<Rightarrow> int" where
  "ref_clamp x lo hi = (if x < lo then lo else if hi < x then hi else x)"

definition ref_bounds :: "int option \<Rightarrow> int option \<Rightarrow> int \<Rightarrow> int \<Rightarrow> int \<times> int" where
  "ref_bounds start end' step n =
     (if step = 0 then (0, 0)
      else
        let defaultStart = (if 0 < step then 0 else n - 1);
            defaultEnd = (if 0 < step then n else - 1);
            s = (case start of None \<Rightarrow> defaultStart | Some x \<Rightarrow> ref_normalize x n);
            e = (case end' of None \<Rightarrow> defaultEnd | Some x \<Rightarrow> ref_normalize x n)
        in if 0 < step then (ref_clamp s 0 n, ref_clamp e 0 n)
           else (ref_clamp e (- 1) (n - 1), ref_clamp s (- 1) (n - 1)))"

function ref_up :: "int \<Rightarrow> int \<Rightarrow> int \<Rightarrow> int list" where
  "ref_up i upper step =
     (if 0 < step \<and> i < upper then i # ref_up (i + step) upper step else [])"
  by pat_completeness auto
termination
  by (relation "measure (\<lambda>(i, upper, step). nat (upper - i))") auto

function ref_down :: "int \<Rightarrow> int \<Rightarrow> int \<Rightarrow> int list" where
  "ref_down i lower step =
     (if step < 0 \<and> lower < i then i # ref_down (i + step) lower step else [])"
  by pat_completeness auto
termination
  by (relation "measure (\<lambda>(i, lower, step). nat (i - lower))") auto

declare ref_up.simps [simp del] ref_down.simps [simp del]

definition ref_slice :: "int option \<Rightarrow> int option \<Rightarrow> int \<Rightarrow> json list \<Rightarrow> json list" where
  "ref_slice start end' step xs =
     (let (lower, upper) = ref_bounds start end' step (int (length xs))
      in map (\<lambda>i. xs ! nat i)
           (if 0 < step then ref_up lower upper step
            else if step < 0 then ref_down upper lower step
            else []))"

text \<open>The array of \<^verbatim>\<open>TestSliceBounds\<close>.\<close>

definition json7 :: "json list" where
  "json7 = [JString ''a'', JString ''b'', JString ''c'', JString ''d'', JString ''e'',
            JString ''f'', JString ''g'']"

subsection \<open>The five selectors\<close>

text \<open>
  Modelled from the spec: the selectors of selector.go and their \<^verbatim>\<open>Select\<close> methods, as
  section 4.3 gives them. A filter holds its \<^verbatim>\<open>LogicalOrExpr\<close>; a slice its optional start
  and end and its step.
\<close>

datatype Selector =
    Name string
  | Index int
  | SliceSelector "go_int option" "go_int option" go_int
  | Wildcard
  | Filter LogicalOrExpr

fun isSingular :: "Selector \<Rightarrow> bool" where
  "isSingular (Name s) = True"
| "isSingular (Index i) = True"
| "isSingular _ = False"

fun filter_loop :: "LogicalOrExpr \<Rightarrow> json list \<Rightarrow> json \<Rightarrow> panic + json list" where
  "filter_loop f [] root' = Inr []"
| "filter_loop f (v # vs) root' =
     bindP (LogicalOrExpr_testFilter f v root') (\<lambda>b.
       bindP (filter_loop f vs root') (\<lambda>rs. Inr (if b then v # rs else rs)))"

fun Selector_Select :: "Selector \<Rightarrow> json \<Rightarrow> json \<Rightarrow> panic + json list" where
  "Selector_Select (Name s) current root' =
     (case current of
        JObject kvs \<Rightarrow> (case map_of kvs s of Some v \<Rightarrow> Inr [v] | None \<Rightarrow> Inr [])
      | _ \<Rightarrow> Inr [])"
| "Selector_Select (Index i) current root' =
     (case current of
        JArray xs \<Rightarrow>
          (let n = int (length xs); j = (if 0 \<le> i then i else n + i)
           in if 0 \<le> j \<and> j < n then Inr [xs ! nat j] else Inr [])
      | _ \<Rightarrow> Inr [])"
| "Selector_Select (SliceSelector start end' step) current root' =
     (case current of
        JArray xs \<Rightarrow> slice_select start end' step xs
      | _ \<Rightarrow> Inr [])"
| "Selector_Select Wildcard current root' =
     (case current of
        JArray xs \<Rightarrow> Inr xs
      | JObject kvs \<Rightarrow> Inr (map snd kvs)
      | _ \<Rightarrow> Inr [])"
| "Selector_Select (Filter f) current root' =
     (case current of
        JArray xs \<Rightarrow> filter_loop f xs root'
      | JObject kvs \<Rightarrow> filter_loop f (map snd kvs) root'
      | _ \<Rightarrow> Inr [])"

section \<open>Segments (segment.go)\<close>

record Segment =
  selectors :: "Selector list"
  descendant :: bool

definition Child :: "Selector list \<Rightarrow> Segment" where
  "Child sel = \<lparr>selectors = sel, descendant = False\<rparr>"

definition Descendant :: "Selector list \<Rightarrow> Segment" where
  "Descendant sel = \<lparr>selectors = sel, descendant = True\<rparr>"

text \<open>\<^verbatim>\<open>for _, sel := range s.selectors { ret = append(ret, sel.Select(current, root)...) }\<close>\<close>

fun select_all :: "Selector list \<Rightarrow> json \<Rightarrow> json \<Rightarrow> panic + json list" where
  "select_all [] current root' = Inr []"
| "select_all (sel # sels) current root' =
     appP (Selector_Select sel current root') (select_all sels current root')"

text \<open>
  \<^verbatim>\<open>Segment.Select\<close> and \<^verbatim>\<open>Segment.descend\<close>, with the two \<^verbatim>\<open>range\<close> loops of the type
  switch (over a \<^verbatim>\<open>[]any\<close> and over a \<^verbatim>\<open>map[string]any\<close>).
\<close>

fun Segment_Select :: "Segment \<Rightarrow> json \<Rightarrow> json \<Rightarrow> panic + json list"
  and descend :: "Segment \<Rightarrow> json \<Rightarrow> json \<Rightarrow> panic + json list"
  and descend_array :: "Segment \<Rightarrow> json list \<Rightarrow> json \<Rightarrow> panic + json list"
  and descend_map :: "Segment \<Rightarrow> (string \<times> json) list \<Rightarrow> json \<Rightarrow> panic + json list"
where
  "Segment_Select s current root' =
     appP (select_all (selectors s) current root')
          (if descendant s then descend s current root' else Inr [])"
| "descend s (JArray val) root' = descend_array s val root'"
| "descend s (JObject val) root' = descend_map s val root'"
| "descend s JNull root' = Inr []"
| "descend s (JBool b) root' = Inr []"
| "descend s (JInt i) root' = Inr []"
| "descend s (JFloat f) root' = Inr []"
| "descend s (JString str) root' = Inr []"
| "descend_array s [] root' = Inr []"
| "descend_array s (v # val) root' =
     appP (Segment_Select s v root') (descend_array s val root')"
| "descend_map s [] root' = Inr []"
| "descend_map s (kv # val) root' =
     appP (Segment_Select s (snd kv) root') (descend_map s val root')"

section \<open>Queries and singular queries\<close>

text \<open>
  Modelled from the spec: \<^verbatim>\<open>Query.Select\<close> (query.go is not among the sources).
  Section 4.4: a query starts with the root, or with the current node when it is
  relative, and folds its segments from left to right, each segment applied to every
  node of the list reached so far.
\<close>

record Query =
  segments :: "Segment list"
  root :: bool

fun select_nodes :: "Segment \<Rightarrow> json list \<Rightarrow> json \<Rightarrow> panic + json list" where
  "select_nodes seg [] root' = Inr []"
| "select_nodes seg (n # ns) root' =
     appP (Segment_Select seg n root') (select_nodes seg ns root')"

fun query_fold :: "Segment list \<Rightarrow> json list \<Rightarrow> json \<Rightarrow> panic + json list" where
  "query_fold [] l root' = Inr l"
| "query_fold (seg # segs) l root' =
     bindP (select_nodes seg l root') (\<lambda>l'. query_fold segs l' root')"

definition Query_Select :: "Query \<Rightarrow> json \<Rightarrow> json \<Rightarrow> panic + json list" where
  "Query_Select q current root' =
     query_fold (segments q) [if root q then root' else current] root'"

text \<open>
  \<^verbatim>\<open>singularQuery\<close> (function.go) and its \<^verbatim>\<open>execute\<close>: the loop over the selectors, each
  applied with a nil root, and \<^verbatim>\<open>res[0]\<close> taken after the test \<^verbatim>\<open>len(res) == 0\<close>.
\<close>

record singularQuery =
  relative :: bool
  sq_selectors :: "Selector list"

fun singular_walk :: "Selector list \<Rightarrow> json \<Rightarrow> panic + JSONPathValue option" where
  "singular_walk [] target = Inr (Some (ValueType target))"
| "singular_walk (seg # segs) target =
     bindP (Selector_Select seg target JNull) (\<lambda>res.
       case res of
         [] \<Rightarrow> Inr None
       | r # _ \<Rightarrow> singular_walk segs r)"

definition singularQuery_execute ::
  "singularQuery \<Rightarrow> json \<Rightarrow> json \<Rightarrow> panic + JSONPathValue option" where
  "singularQuery_execute sq current root' =
     singular_walk (sq_selectors sq) (if relative sq then current else root')"

definition singularQuery_arg :: "singularQuery \<Rightarrow> FunctionExprArg" where
  "singularQuery_arg sq =
     \<lparr>execute = singularQuery_execute sq, asTypeKind = FuncSingularQuery\<rparr>"

text \<open>
  The singular query as the query it abbreviates: one child segment with one selector
  for each selector of the chain (section 3 of the specification).
\<close>

definition as_query :: "singularQuery \<Rightarrow> Query" where
  "as_query sq =
     \<lparr>segments = map (\<lambda>sel. Child [sel]) (sq_selectors sq), root = (\<not> relative sq)\<rparr>"

subsection \<open>The pre-order traversal of the specification\<close>

text \<open>
  The members of a node and its descendants in pre-order, as section 4.4 words the
  result of a descendant segment; \<open>concatP\<close> concatenates results in order and stops at
  the first panic.
\<close>

fun members :: "json \<Rightarrow> json list" where
  "members (JArray xs) = xs"
| "members (JObject kvs) = map snd kvs"
| "members _ = []"

fun preorder :: "json \<Rightarrow> json list" where
  "preorder (JArray xs) = JArray xs # concat (map preorder xs)"
| "preorder (JObject kvs) = JObject kvs # concat (map (\<lambda>kv. preorder (snd kv)) kvs)"
| "preorder v = [v]"

definition concatP :: "(panic + 'a list) list \<Rightarrow> panic + 'a list" where
  "concatP rs = foldr appP rs (Inr [])"

section \<open>The parser (parser.go)\<close>

subsection \<open>Formatting and integer conversion\<close>

text \<open>
  Go's \<^verbatim>\<open>fmt\<close> and \<^verbatim>\<open>strconv\<close> are outside the repository. \<open>show_int\<close> is \<^verbatim>\<open>%v\<close> of an
  integer, \<open>Quote\<close> is \<^verbatim>\<open>%q\<close> of a string (on printable ASCII, where only the quote and
  the backslash are escaped) and \<open>ParseInt\<close> is \<^verbatim>\<open>strconv.ParseInt(s, 10, 64)\<close>: an
  optional sign, then at least one decimal digit and nothing else, and a range error
  outside the 64-bit integers.
\<close>

definition digit_char :: "int \<Rightarrow> char" where
  "digit_char d = ''0123456789'' ! nat d"

function show_nat :: "int \<Rightarrow> string" where
  "show_nat n = (if n < 10 then [digit_char n] else show_nat (n div 10) @ [digit_char (n mod 10)])"
  by pat_completeness auto
termination
  by (relation "measure nat") auto

declare show_nat.simps [simp del]

definition show_int :: "int \<Rightarrow> string" where
  "show_int i = (if i < 0 then CHR ''-'' # show_nat (- i) else show_nat i)"

definition quote_char :: "char \<Rightarrow> string" where
  "quote_char c =
     (if c = CHR 0x22 then [CHR 0x5C, CHR 0x22]
      else if c = CHR 0x5C then [CHR 0x5C, CHR 0x5C]
      else [c])"

definition Quote :: "string \<Rightarrow> string" where
  "Quote s = [CHR 0x22] @ concat (map quote_char s) @ [CHR 0x22]"

datatype NumError = ErrSyntax | ErrRange

definition NumError_Error :: "NumError \<Rightarrow> string" where
  "NumError_Error e = (case e of ErrSyntax \<Rightarrow> ''invalid syntax'' | ErrRange \<Rightarrow> ''value out of range'')"

definition is_digit :: "char \<Rightarrow> bool" where
  "is_digit c = (48 \<le> (of_char c :: nat) \<and> (of_char c :: nat) \<le> 57)"

definition digit_val :: "char \<Rightarrow> int" where
  "digit_val c = of_char c - 48"

definition digits_val :: "string \<Rightarrow> int" where
  "digits_val ds = foldl (\<lambda>acc c. acc * 10 + digit_val c) 0 ds"

definition ParseInt :: "string \<Rightarrow> NumError + int" where
  "ParseInt s =
     (if s = [] then Inl ErrSyntax
      else
        let neg = (hd s = CHR ''-'');
            ds = (if hd s = CHR ''+'' \<or> hd s = CHR ''-'' then tl s else s)
        in if ds = [] \<or> \<not> list_all is_digit ds then Inl ErrSyntax
           else
             let un = digits_val ds
             in if \<not> neg \<and> 2 ^ 63 \<le> un then Inl ErrRange
                else if neg \<and> 2 ^ 63 < un then Inl ErrRange
                else Inr (if neg then - un else un))"

subsection \<open>Tokens and errors\<close>

text \<open>
  The lexer is not among the sources. A token has the fields the parser reads:
  \<^verbatim>\<open>tok\<close> (a token class or a punctuation rune), \<^verbatim>\<open>val\<close> and the 0-based \<^verbatim>\<open>pos\<close>.
\<close>

datatype toktype =
    Invalid | EOF | Identifier | Integer | Number | GoString
  | BoolTrue | BoolFalse | JsonNull | BlankSpace | Rune char

record token =
  tok :: toktype
  val :: string
  pos :: int

text \<open>\<^verbatim>\<open>fmt.Errorf("%w: %v at position %v", ErrPathParse, msg, tok.pos+1)\<close>, with
  \<^verbatim>\<open>ErrPathParse = errors.New("jsonpath")\<close>.\<close>

definition makeError :: "token \<Rightarrow> string \<Rightarrow> string" where
  "makeError t msg = ''jsonpath: '' @ msg @ '' at position '' @ show_int (pos t + 1)"

definition makeNumErr :: "token \<Rightarrow> string \<Rightarrow> NumError \<Rightarrow> string" where
  "makeNumErr t num err =
     makeError t (''cannot parse '' @ Quote num @ '', '' @ NumError_Error err)"

text \<open>\<^verbatim>\<open>parsePathInt\<close> with its constants \<^verbatim>\<open>minVal = -1<<53 + 1\<close> and \<^verbatim>\<open>maxVal = 1<<53 - 1\<close>.\<close>

definition minVal :: int where "minVal = - (2 ^ 53) + 1"
definition maxVal :: int where "maxVal = 2 ^ 53 - 1"

definition parsePathInt :: "token \<Rightarrow> string + int" where
  "parsePathInt t =
     (if val t = ''-0''
      then Inl (makeError t (''invalid integer path value '' @ Quote (val t)))
      else
        case ParseInt (val t) of
          Inl err \<Rightarrow> Inl (makeNumErr t (val t) err)
        | Inr idx \<Rightarrow>
            if idx > maxVal \<or> idx < minVal
            then Inl (makeError t (''cannot parse '' @ Quote (val t) @ '', value out of range''))
            else Inr idx)"

section \<open>The parser: lexer, syntax tree, registry\<close>

text \<open>
  Modelled from the spec: the lexer (not among the sources). Section 4.1: tokens with
  single-token lookahead, a scan of the next token and helpers that skip blank space
  or peek past it. The state is the list of the tokens still to come, blank-space tokens
  included, and the position of the end of the input for the \<^verbatim>\<open>eof\<close> token; \<^verbatim>\<open>lex.r\<close>, the
  next rune, is the first rune of the next token (\<open>None\<close> at the end of the input).
  Punctuation comes one rune per token, as the parser reads \<^verbatim>\<open>==\<close>, \<^verbatim>\<open>&&\<close> and \<^verbatim>\<open>..\<close>.
\<close>

record lexer =
  toks :: "token list"
  end_pos :: int

type_synonym rune = "char option"

text \<open>
  The first rune of a token: of a punctuation token the rune itself, of a string token
  its opening quote, of any other token the first character of its text.
\<close>

definition first_rune :: "token \<Rightarrow> rune" where
  "first_rune t =
     (case tok t of
        Rune c \<Rightarrow> Some c
      | EOF \<Rightarrow> None
      | GoString \<Rightarrow> Some (CHR 0x22)
      | _ \<Rightarrow> (case val t of [] \<Rightarrow> None | c # _ \<Rightarrow> Some c))"

definition lex_r :: "lexer \<Rightarrow> rune" where
  "lex_r lx = (case toks lx of [] \<Rightarrow> None | t # _ \<Rightarrow> first_rune t)"

definition scan :: "lexer \<Rightarrow> token \<times> lexer" where
  "scan lx =
     (case toks lx of
        [] \<Rightarrow> (\<lparr>tok = EOF, val = [], pos = end_pos lx\<rparr>, lx)
      | t # ts \<Rightarrow> (t, lx\<lparr>toks := ts\<rparr>))"

definition scanBlankSpace :: "lexer \<Rightarrow> lexer" where
  "scanBlankSpace lx = lx\<lparr>toks := dropWhile (\<lambda>t. tok t = BlankSpace) (toks lx)\<rparr>"

definition skipBlankSpace :: "lexer \<Rightarrow> rune \<times> lexer" where
  "skipBlankSpace lx = (lex_r (scanBlankSpace lx), scanBlankSpace lx)"

definition peekPastBlankSpace :: "lexer \<Rightarrow> rune" where
  "peekPastBlankSpace lx = lex_r (scanBlankSpace lx)"

definition isBlankSpace :: "rune \<Rightarrow> bool" where
  "isBlankSpace r =
     (r = Some CHR '' '' \<or> r = Some (CHR 0x09) \<or> r = Some (CHR 0x0A) \<or> r = Some (CHR 0x0D))"

text \<open>
  \<^verbatim>\<open>token.name\<close> (a method of the absent lexer) and \<^verbatim>\<open>strconv.ParseFloat\<close> are parameters
  of the parser.
\<close>

record env =
  tok_name :: "token \<Rightarrow> string"
  ParseFloat :: "string \<Rightarrow> NumError + real"

type_synonym 'a parse = "string + 'a \<times> lexer"

definition unexpected :: "env \<Rightarrow> token \<Rightarrow> string" where
  "unexpected E t =
     (if tok t = Invalid then makeError t (val t)
      else makeError t (''unexpected '' @ tok_name E t))"

text \<open>
  The syntax tree that the parser builds by the constructors of package \<^verbatim>\<open>spec\<close>
  (\<^verbatim>\<open>spec.Name\<close>, \<^verbatim>\<open>spec.Child\<close>, \<^verbatim>\<open>spec.Query\<close>, ...), which is not among the sources. A
  function expression carries the name and the result type of its registered function.
\<close>

datatype CompOp =
  EqualTo | NotEqualTo | LessThan | GreaterThan | LessThanEqualTo | GreaterThanEqualTo

datatype spec_LiteralArg =
  LitString string | LitInt int | LitFloat real | LitBool bool | LitNull

datatype spec_Selector =
    spec_Name string
  | spec_Index int
  | spec_Slice "int option" "int option" "int option"
  | spec_Wildcard
  | spec_Filter spec_LogicalOr
and spec_Segment =
    spec_Child "spec_Selector list"
  | spec_Descendant "spec_Selector list"
and spec_PathQuery =
    spec_Query bool "spec_Segment list"
and spec_LogicalOr =
    spec_LogicalOr "spec_BasicExpr list list"
and spec_BasicExpr =
    spec_Paren spec_LogicalOr
  | spec_NotParen spec_LogicalOr
  | spec_ExistExpr spec_PathQuery
  | spec_Nonexistence spec_PathQuery
  | spec_ComparisonExpr spec_CompVal CompOp spec_CompVal
  | spec_FuncExpr spec_FunctionExpr
  | spec_NotFuncExpr spec_FunctionExpr
and spec_FunctionExpr =
    spec_FunctionExpr string FuncType "spec_FunctionExprArg list"
and spec_FunctionExprArg =
    ArgLiteral spec_LiteralArg
  | ArgSingularQuery bool "spec_Selector list"
  | ArgFilterQuery spec_PathQuery
  | ArgFunction spec_FunctionExpr
  | ArgLogicalOr spec_LogicalOr
and spec_CompVal =
    CompLiteral spec_LiteralArg
  | CompSingularQuery bool "spec_Selector list"
  | CompFunction spec_FunctionExpr

text \<open>Errors of the parser are their messages.\<close>

definition bindE :: "string + 'a \<Rightarrow> ('a \<Rightarrow> string + 'b) \<Rightarrow> string + 'b" where
  "bindE m f = (case m of Inl e \<Rightarrow> Inl e | Inr x \<Rightarrow> f x)"

definition out_of_fuel :: string where
  "out_of_fuel = ''out of fuel''"

text \<open>
  The argument checks of function.go. Each reads of its arguments only
  \<^verbatim>\<open>asTypeKind()\<close>, so \<open>Validate\<close> takes the list of these kinds.
\<close>

definition checkLengthArgs :: "FuncType list \<Rightarrow> string option" where
  "checkLengthArgs fea =
     (if length fea \<noteq> 1
      then Some (''expected 1 argument but found '' @ show_int (int (length fea)))
      else if \<not> convertsTo (fea ! 0) PathValue
      then Some ''cannot convert length() argument to ValueType''
      else None)"

definition checkCountArgs :: "FuncType list \<Rightarrow> string option" where
  "checkCountArgs fea =
     (if length fea \<noteq> 1
      then Some (''expected 1 argument but found '' @ show_int (int (length fea)))
      else if \<not> convertsTo (fea ! 0) PathNodes
      then Some ''cannot convert count() argument to PathNodes''
      else None)"

definition checkValueArgs :: "FuncType list \<Rightarrow> string option" where
  "checkValueArgs fea =
     (if length fea \<noteq> 1
      then Some (''expected 1 argument but found '' @ show_int (int (length fea)))
      else if \<not> convertsTo (fea ! 0) PathNodes
      then Some ''cannot convert value() argument to PathNodes''
      else None)"

fun check_each :: "string \<Rightarrow> int \<Rightarrow> FuncType list \<Rightarrow> string option" where
  "check_each f i [] = None"
| "check_each f i (kind # fea) =
     (if \<not> convertsTo kind PathValue
      then Some (''cannot convert '' @ f @ ''() argument '' @ show_int (i + 1) @ '' to PathNodes'')
      else check_each f (i + 1) fea)"

definition checkMatchArgs :: "FuncType list \<Rightarrow> string option" where
  "checkMatchArgs fea =
     (if length fea \<noteq> 2
      then Some (''expected 2 arguments but found '' @ show_int (int (length fea)))
      else check_each ''match'' 0 fea)"

definition checkSearchArgs :: "FuncType list \<Rightarrow> string option" where
  "checkSearchArgs fea =
     (if length fea \<noteq> 2
      then Some (''expected 2 arguments but found '' @ show_int (int (length fea)))
      else check_each ''search'' 0 fea)"

definition length_fn :: Function where
  "length_fn = \<lparr>FuncName = ''length'', ResultType = FuncValue,
       Validate = checkLengthArgs, Evaluate = lengthFunc\<rparr>"

definition count_fn :: Function where
  "count_fn = \<lparr>FuncName = ''count'', ResultType = FuncValue,
       Validate = checkCountArgs, Evaluate = countFunc\<rparr>"

definition value_fn :: Function where
  "value_fn = \<lparr>FuncName = ''value'', ResultType = FuncValue,
       Validate = checkValueArgs, Evaluate = valueFunc\<rparr>"

definition match_fn :: Function where
  "match_fn = \<lparr>FuncName = ''match'', ResultType = FuncLogical,
       Validate = checkMatchArgs, Evaluate = matchFunc\<rparr>"

definition search_fn :: Function where
  "search_fn = \<lparr>FuncName = ''search'', ResultType = FuncLogical,
       Validate = checkSearchArgs, Evaluate = searchFunc\<rparr>"

text \<open>The map \<^verbatim>\<open>registry\<close> after \<^verbatim>\<open>registerFunctions\<close>.\<close>

definition registry :: "string \<Rightarrow> Function option" where
  "registry name =
     (if name = ''length'' then Some length_fn
      else if name = ''count'' then Some count_fn
      else if name = ''value'' then Some value_fn
      else if name = ''match'' then Some match_fn
      else if name = ''search'' then Some search_fn
      else None)"

text \<open>
  Modelled from the spec: \<^verbatim>\<open>PathQuery.Singular\<close> and \<^verbatim>\<open>PathQuery.Expression\<close> of package
  \<^verbatim>\<open>spec\<close>. Section 3: a query is singular iff every segment is a child segment with
  exactly one selector that is a Name or an Index; as a function argument a singular
  query has the kind SingularQuery and any other query the kind NodeList
  (\<^verbatim>\<open>filterQuery.asTypeKind\<close> in function.go).
\<close>

fun spec_isSingular :: "spec_Selector \<Rightarrow> bool" where
  "spec_isSingular (spec_Name s) = True"
| "spec_isSingular (spec_Index i) = True"
| "spec_isSingular _ = False"

fun singular_selectors :: "spec_Segment list \<Rightarrow> spec_Selector list option" where
  "singular_selectors [] = Some []"
| "singular_selectors (spec_Child [sel] # segs) =
     (if spec_isSingular sel
      then (case singular_selectors segs of None \<Rightarrow> None | Some sels \<Rightarrow> Some (sel # sels))
      else None)"
| "singular_selectors _ = None"

fun Singular :: "spec_PathQuery \<Rightarrow> (bool \<times> spec_Selector list) option" where
  "Singular (spec_Query rt segs) =
     (case singular_selectors segs of None \<Rightarrow> None | Some sels \<Rightarrow> Some (rt, sels))"

definition Expression :: "spec_PathQuery \<Rightarrow> spec_FunctionExprArg" where
  "Expression q =
     (case Singular q of
        Some (rt, sels) \<Rightarrow> ArgSingularQuery rt sels
      | None \<Rightarrow> ArgFilterQuery q)"

fun ResultType_of :: "spec_FunctionExpr \<Rightarrow> FuncType" where
  "ResultType_of (spec_FunctionExpr name rt as) = rt"

fun spec_asTypeKind :: "spec_FunctionExprArg \<Rightarrow> FuncType" where
  "spec_asTypeKind (ArgLiteral l) = FuncLiteral"
| "spec_asTypeKind (ArgSingularQuery rt sels) = FuncSingularQuery"
| "spec_asTypeKind (ArgFilterQuery q) =
     (if Singular q \<noteq> None then FuncSingularQuery else FuncNodeList)"
| "spec_asTypeKind (ArgFunction f) = ResultType_of f"
| "spec_asTypeKind (ArgLogicalOr lo) = FuncLogical"

text \<open>
  \<^verbatim>\<open>NewFunctionExpr\<close>: the lookup in the registry and the call of \<^verbatim>\<open>Validate\<close>. An error
  comes with the flag that \<^verbatim>\<open>parseFunction\<close> tests (the function is not registered); the
  text for an unregistered function is the one of function.go.
\<close>

definition NewFunctionExpr ::
  "string \<Rightarrow> spec_FunctionExprArg list \<Rightarrow> (bool \<times> string) + spec_FunctionExpr" where
  "NewFunctionExpr name as =
     (case registry name of
        Some f \<Rightarrow>
          (case Validate f (map spec_asTypeKind as) of
             Some err \<Rightarrow> Inl (False, err)
           | None \<Rightarrow> Inr (spec_FunctionExpr name (ResultType f) as))
      | None \<Rightarrow> Inl (True, ''jsonpath: unknown jsonpath function '' @ name @ ''()''))"

section \<open>The parser: recursive descent (parser.go)\<close>

text \<open>
  Each function of parser.go is a function of the same name here, on the lexer state it
  returns updated. The recursion of the grammar (an argument or a parenthesis holds a
  filter expression, a filter query holds selectors that hold filters) goes through the
  record \<open>callees\<close>: \<^verbatim>\<open>parseQuery\<close> under \<^verbatim>\<open>parseFilterQuery\<close>, \<^verbatim>\<open>parseLogicalOrExpr\<close> under
  \<^verbatim>\<open>parseInnerParenExpr\<close> and \<^verbatim>\<open>parseFunctionArgs\<close>, and \<^verbatim>\<open>parseFunction\<close> under
  \<^verbatim>\<open>parseFunctionArgs\<close>. \<open>descent d\<close> ties the knot for nesting depth \<open>d\<close>. Every
  \<^verbatim>\<open>for\<close> loop takes a bound \<open>lf\<close> on its iterations; a loop or a nesting that exceeds its
  bound gives the error \<open>out_of_fuel\<close>, which no Go path produces.
\<close>

record callees =
  c_parseQuery :: "bool \<Rightarrow> lexer \<Rightarrow> spec_PathQuery parse"
  c_parseLogicalOrExpr :: "lexer \<Rightarrow> spec_LogicalOr parse"
  c_parseFunction :: "token \<Rightarrow> lexer \<Rightarrow> spec_FunctionExpr parse"

definition is_literal_tok :: "toktype \<Rightarrow> bool" where
  "is_literal_tok k =
     (k = GoString \<or> k = Integer \<or> k = Number \<or> k = BoolFalse \<or> k = BoolTrue \<or> k = JsonNull)"

definition is_comp_rune :: "rune \<Rightarrow> bool" where
  "is_comp_rune c =
     (c = Some CHR ''='' \<or> c = Some CHR ''!'' \<or> c = Some CHR ''<'' \<or> c = Some CHR ''>'')"

definition parseNameOrWildcard :: "env \<Rightarrow> lexer \<Rightarrow> spec_Selector parse" where
  "parseNameOrWildcard E lx =
     (let (t, lx1) = scan lx
      in if tok t = Identifier then Inr (spec_Name (val t), lx1)
         else if tok t = Rune CHR ''*'' then Inr (spec_Wildcard, lx1)
         else Inl (unexpected E t))"

definition parseLiteral :: "env \<Rightarrow> token \<Rightarrow> string + spec_LiteralArg" where
  "parseLiteral E t =
     (case tok t of
        GoString \<Rightarrow> Inr (LitString (val t))
      | Integer \<Rightarrow>
          (case ParseInt (val t) of
             Inl err \<Rightarrow> Inl (makeNumErr t (val t) err)
           | Inr i \<Rightarrow> Inr (LitInt i))
      | Number \<Rightarrow>
          (case ParseFloat E (val t) of
             Inl err \<Rightarrow> Inl (makeNumErr t (val t) err)
           | Inr num \<Rightarrow> Inr (LitFloat num))
      | BoolTrue \<Rightarrow> Inr (LitBool True)
      | BoolFalse \<Rightarrow> Inr (LitBool False)
      | JsonNull \<Rightarrow> Inr LitNull
      | _ \<Rightarrow> Inl (unexpected E t))"

definition parseCompOp :: "lexer \<Rightarrow> CompOp parse" where
  "parseCompOp lx =
     (let (t, lx1) = scan lx
      in if tok t = Rune CHR ''='' \<and> lex_r lx1 = Some CHR ''='' then Inr (EqualTo, snd (scan lx1))
         else if tok t = Rune CHR ''!'' \<and> lex_r lx1 = Some CHR ''=''
           then Inr (NotEqualTo, snd (scan lx1))
         else if tok t = Rune CHR ''<'' then
           (if lex_r lx1 = Some CHR ''='' then Inr (LessThanEqualTo, snd (scan lx1))
            else Inr (LessThan, lx1))
         else if tok t = Rune CHR ''>'' then
           (if lex_r lx1 = Some CHR ''='' then Inr (GreaterThanEqualTo, snd (scan lx1))
            else Inr (GreaterThan, lx1))
         else Inl (makeError t ''invalid comparison operator''))"

text \<open>The loop of \<^verbatim>\<open>parseSingularQuery\<close>, a \<^verbatim>\<open>switch\<close> on \<^verbatim>\<open>lex.r\<close>.\<close>

fun parseSingularQuery_loop ::
  "nat \<Rightarrow> env \<Rightarrow> bool \<Rightarrow> spec_Selector list \<Rightarrow> lexer \<Rightarrow> (bool \<times> spec_Selector list) parse" where
  "parseSingularQuery_loop 0 E rt sels lx = Inl out_of_fuel"
| "parseSingularQuery_loop (Suc n) E rt sels lx =
     (if lex_r lx = Some CHR ''['' then
        (let (_, lx1) = skipBlankSpace lx;
             (_, lx2) = scan lx1;
             (t, lx3) = scan lx2
         in bindE
              (if tok t = GoString then Inr (spec_Name (val t))
               else if tok t = Integer then bindE (parsePathInt t) (\<lambda>idx. Inr (spec_Index idx))
               else Inl (unexpected E t))
              (\<lambda>sel.
                 let (_, lx4) = skipBlankSpace lx3;
                     (t', lx5) = scan lx4
                 in if tok t' \<noteq> Rune CHR '']'' then Inl (unexpected E t')
                    else parseSingularQuery_loop n E rt (sels @ [sel]) lx5))
      else if lex_r lx = Some CHR ''.'' then
        (let (_, lx1) = scan lx;
             (t, lx2) = scan lx1
         in if tok t \<noteq> Identifier then Inl (unexpected E t)
            else parseSingularQuery_loop n E rt (sels @ [spec_Name (val t)]) lx2)
      else Inr ((rt, sels), lx))"

definition parseSingularQuery ::
  "env \<Rightarrow> nat \<Rightarrow> token \<Rightarrow> lexer \<Rightarrow> (bool \<times> spec_Selector list) parse" where
  "parseSingularQuery E lf startToken lx =
     parseSingularQuery_loop lf E (tok startToken = Rune CHR ''$'') [] lx"

definition parseFilterQuery :: "callees \<Rightarrow> token \<Rightarrow> lexer \<Rightarrow> spec_PathQuery parse" where
  "parseFilterQuery C t lx = c_parseQuery C (tok t = Rune CHR ''$'') lx"

text \<open>
  \<^verbatim>\<open>parseFunctionArgs\<close>. \<open>args_next\<close> is the second \<^verbatim>\<open>switch\<close> of the loop body ("what's
  next"), which goes on with the loop after a comma. The first \<^verbatim>\<open>switch\<close> has no default:
  a token of no case adds no argument; after \<^verbatim>\<open>!\<close> or \<^verbatim>\<open>(\<close> the token is dropped and a
  logical-or expression is parsed from what follows.
\<close>

definition args_next ::
  "env \<Rightarrow> (spec_FunctionExprArg list \<Rightarrow> lexer \<Rightarrow> spec_FunctionExprArg list parse)
     \<Rightarrow> spec_FunctionExprArg list \<Rightarrow> lexer \<Rightarrow> spec_FunctionExprArg list parse" where
  "args_next E continue res lx =
     (let (c, lx1) = skipBlankSpace lx
      in if c = Some CHR '','' then continue res (snd (scan lx1))
         else if c = Some CHR '')'' then Inr (res, snd (scan lx1))
         else Inl (unexpected E (fst (scan lx1))))"

fun parseFunctionArgs_loop ::
  "nat \<Rightarrow> env \<Rightarrow> callees \<Rightarrow> spec_FunctionExprArg list \<Rightarrow> lexer
     \<Rightarrow> spec_FunctionExprArg list parse" where
  "parseFunctionArgs_loop 0 E C res lx = Inl out_of_fuel"
| "parseFunctionArgs_loop (Suc n) E C res lx =
     (let (t, lx1) = scan lx
      in if is_literal_tok (tok t) then
           bindE (parseLiteral E t) (\<lambda>v.
             args_next E (parseFunctionArgs_loop n E C) (res @ [ArgLiteral v]) lx1)
         else if tok t = Rune CHR ''@'' \<or> tok t = Rune CHR ''$'' then
           bindE (parseFilterQuery C t lx1) (\<lambda>(q, lx2).
             args_next E (parseFunctionArgs_loop n E C) (res @ [Expression q]) lx2)
         else if tok t = Identifier then
           (let (c, lx2) = skipBlankSpace lx1
            in if c \<noteq> Some CHR ''('' then Inl (unexpected E t)
               else bindE (c_parseFunction C t lx2) (\<lambda>(f, lx3).
                 args_next E (parseFunctionArgs_loop n E C) (res @ [ArgFunction f]) lx3))
         else if tok t = BlankSpace then parseFunctionArgs_loop n E C res lx1
         else if tok t = Rune CHR '')'' then Inr (res, lx1)
         else if tok t = Rune CHR ''!'' \<or> tok t = Rune CHR ''('' then
           bindE (c_parseLogicalOrExpr C lx1) (\<lambda>(ors, lx2).
             args_next E (parseFunctionArgs_loop n E C) (res @ [ArgLogicalOr ors]) lx2)
         else args_next E (parseFunctionArgs_loop n E C) res lx1)"

definition parseFunctionArgs ::
  "env \<Rightarrow> callees \<Rightarrow> nat \<Rightarrow> lexer \<Rightarrow> spec_FunctionExprArg list parse" where
  "parseFunctionArgs E C lf lx = parseFunctionArgs_loop lf E C [] lx"

definition parseFunction ::
  "env \<Rightarrow> callees \<Rightarrow> nat \<Rightarrow> token \<Rightarrow> lexer \<Rightarrow> spec_FunctionExpr parse" where
  "parseFunction E C lf t lx =
     (let (paren, lx1) = scan lx
      in bindE (parseFunctionArgs E C lf lx1) (\<lambda>(as, lx2).
           case NewFunctionExpr (val t) as of
             Inl (unregistered, err) \<Rightarrow>
               if unregistered then Inl (makeError t err) else Inl (makeError paren err)
           | Inr fe \<Rightarrow> Inr (fe, lx2)))"

definition parseComparableVal ::
  "env \<Rightarrow> callees \<Rightarrow> nat \<Rightarrow> token \<Rightarrow> lexer \<Rightarrow> spec_CompVal parse" where
  "parseComparableVal E C lf t lx =
     (if is_literal_tok (tok t) then
        bindE (parseLiteral E t) (\<lambda>l. Inr (CompLiteral l, lx))
      else if tok t = Rune CHR ''@'' \<or> tok t = Rune CHR ''$'' then
        bindE (parseSingularQuery E lf t lx) (\<lambda>((rt, sels), lx1).
          Inr (CompSingularQuery rt sels, lx1))
      else if tok t = Identifier then
        (if lex_r lx \<noteq> Some CHR ''('' then Inl (unexpected E t)
         else bindE (parseFunction E C lf t lx) (\<lambda>(f, lx1).
           if ResultType_of f = FuncLogical
           then Inl (makeError t ''cannot compare result of logical function'')
           else Inr (CompFunction f, lx1)))
      else Inl (unexpected E t))"

definition parseComparableExpr ::
  "env \<Rightarrow> callees \<Rightarrow> nat \<Rightarrow> spec_CompVal \<Rightarrow> lexer \<Rightarrow> spec_BasicExpr parse" where
  "parseComparableExpr E C lf left lx =
     (let (_, lx1) = skipBlankSpace lx
      in bindE (parseCompOp lx1) (\<lambda>(op, lx2).
           let (_, lx3) = skipBlankSpace lx2;
               (t, lx4) = scan lx3
           in bindE (parseComparableVal E C lf t lx4) (\<lambda>(right, lx5).
                Inr (spec_ComparisonExpr left op right, lx5))))"

definition parseFunctionFilterExpr ::
  "env \<Rightarrow> callees \<Rightarrow> nat \<Rightarrow> token \<Rightarrow> lexer \<Rightarrow> spec_BasicExpr parse" where
  "parseFunctionFilterExpr E C lf ident lx =
     bindE (parseFunction E C lf ident lx) (\<lambda>(f, lx1).
       if ResultType_of f = FuncLogical then Inr (spec_FuncExpr f, lx1)
       else
         let (c, lx2) = skipBlankSpace lx1
         in if is_comp_rune c then parseComparableExpr E C lf (CompFunction f) lx2
            else Inl (makeError (fst (scan lx2)) ''missing comparison to function result''))"

definition parseNotExistsExpr :: "callees \<Rightarrow> token \<Rightarrow> lexer \<Rightarrow> spec_BasicExpr parse" where
  "parseNotExistsExpr C t lx =
     bindE (parseFilterQuery C t lx) (\<lambda>(q, lx1). Inr (spec_Nonexistence q, lx1))"

definition parseInnerParenExpr :: "env \<Rightarrow> callees \<Rightarrow> lexer \<Rightarrow> spec_LogicalOr parse" where
  "parseInnerParenExpr E C lx =
     bindE (c_parseLogicalOrExpr C lx) (\<lambda>(expr, lx1).
       let (next, lx2) = scan lx1
       in if tok next \<noteq> Rune CHR '')''
          then Inl (makeError next (''expected '' @ [CHR 0x27] @ '')'' @ [CHR 0x27]
                 @ '' but found '' @ tok_name E next))
          else Inr (expr, lx2))"

definition parseParenExpr :: "env \<Rightarrow> callees \<Rightarrow> lexer \<Rightarrow> spec_BasicExpr parse" where
  "parseParenExpr E C lx =
     bindE (parseInnerParenExpr E C lx) (\<lambda>(expr, lx1). Inr (spec_Paren expr, lx1))"

definition parseNotParenExpr :: "env \<Rightarrow> callees \<Rightarrow> lexer \<Rightarrow> spec_BasicExpr parse" where
  "parseNotParenExpr E C lx =
     bindE (parseInnerParenExpr E C lx) (\<lambda>(expr, lx1). Inr (spec_NotParen expr, lx1))"

text \<open>
  \<^verbatim>\<open>parseBasicExpr\<close>. After \<^verbatim>\<open>!\<close> an identifier is parsed as a function call and wrapped in
  \<^verbatim>\<open>NotFuncExpr\<close>; any other token goes to \<^verbatim>\<open>parseNotExistsExpr\<close>.
\<close>

definition parseBasicExpr :: "env \<Rightarrow> callees \<Rightarrow> nat \<Rightarrow> lexer \<Rightarrow> spec_BasicExpr parse" where
  "parseBasicExpr E C lf lx =
     (let (_, lx0) = skipBlankSpace lx;
          (t, lx1) = scan lx0
      in if tok t = Rune CHR ''!'' then
           (let (c, lx2) = skipBlankSpace lx1
            in if c = Some CHR ''('' then parseNotParenExpr E C (snd (scan lx2))
               else
                 let (next, lx3) = scan lx2
                 in if tok next = Identifier then
                      bindE (parseFunction E C lf next lx3) (\<lambda>(f, lx4).
                        Inr (spec_NotFuncExpr f, lx4))
                    else parseNotExistsExpr C next lx3)
         else if tok t = Rune CHR ''('' then parseParenExpr E C lx1
         else if is_literal_tok (tok t) then
           bindE (parseLiteral E t) (\<lambda>left. parseComparableExpr E C lf (CompLiteral left) lx1)
         else if tok t = Identifier then
           (if lex_r lx1 = Some CHR ''('' then parseFunctionFilterExpr E C lf t lx1
            else Inl (unexpected E t))
         else if tok t = Rune CHR ''@'' \<or> tok t = Rune CHR ''$'' then
           bindE (parseFilterQuery C t lx1) (\<lambda>(q, lx2).
             case Singular q of
               Some (rt, sels) \<Rightarrow>
                 (let (c, lx3) = skipBlankSpace lx2
                  in if is_comp_rune c
                     then parseComparableExpr E C lf (CompSingularQuery rt sels) lx3
                     else Inr (spec_ExistExpr q, lx3))
             | None \<Rightarrow> Inr (spec_ExistExpr q, lx2))
         else Inl (unexpected E t))"

fun parseLogicalAndExpr_loop ::
  "nat \<Rightarrow> env \<Rightarrow> callees \<Rightarrow> nat \<Rightarrow> spec_BasicExpr list \<Rightarrow> lexer \<Rightarrow> spec_BasicExpr list parse" where
  "parseLogicalAndExpr_loop 0 E C lf ors lx = Inl out_of_fuel"
| "parseLogicalAndExpr_loop (Suc n) E C lf ors lx =
     (if lex_r lx \<noteq> Some CHR ''&'' then Inr (ors, lx)
      else
        let (_, lx1) = scan lx;
            (next, lx2) = scan lx1
        in if tok next \<noteq> Rune CHR ''&''
           then Inl (makeError next (''expected '' @ [CHR 0x27] @ ''&'' @ [CHR 0x27]
                  @ '' but found '' @ tok_name E next))
           else bindE (parseBasicExpr E C lf lx2) (\<lambda>(expr, lx3).
                  parseLogicalAndExpr_loop n E C lf (ors @ [expr]) lx3))"

definition parseLogicalAndExpr ::
  "env \<Rightarrow> callees \<Rightarrow> nat \<Rightarrow> lexer \<Rightarrow> spec_BasicExpr list parse" where
  "parseLogicalAndExpr E C lf lx =
     bindE (parseBasicExpr E C lf lx) (\<lambda>(expr, lx1).
       parseLogicalAndExpr_loop lf E C lf [expr] (scanBlankSpace lx1))"

fun parseLogicalOrExpr_loop ::
  "nat \<Rightarrow> env \<Rightarrow> callees \<Rightarrow> nat \<Rightarrow> spec_BasicExpr list list \<Rightarrow> lexer
     \<Rightarrow> spec_BasicExpr list list parse" where
  "parseLogicalOrExpr_loop 0 E C lf ands lx = Inl out_of_fuel"
| "parseLogicalOrExpr_loop (Suc n) E C lf ands lx =
     (if lex_r lx \<noteq> Some CHR ''|'' then Inr (ands, lx)
      else
        let (_, lx1) = scan lx;
            (next, lx2) = scan lx1
        in if tok next \<noteq> Rune CHR ''|''
           then Inl (makeError next (''expected '' @ [CHR 0x27] @ ''|'' @ [CHR 0x27]
                  @ '' but found '' @ tok_name E next))
           else bindE (parseLogicalAndExpr E C lf lx2) (\<lambda>(land, lx3).
                  parseLogicalOrExpr_loop n E C lf (ands @ [land]) lx3))"

definition parseLogicalOrExpr ::
  "env \<Rightarrow> callees \<Rightarrow> nat \<Rightarrow> lexer \<Rightarrow> spec_LogicalOr parse" where
  "parseLogicalOrExpr E C lf lx =
     bindE (parseLogicalAndExpr E C lf lx) (\<lambda>(land, lx1).
       bindE (parseLogicalOrExpr_loop lf E C lf [land] (scanBlankSpace lx1)) (\<lambda>(ands, lx2).
         Inr (spec_LogicalOr ands, lx2)))"

definition parseFilter :: "env \<Rightarrow> callees \<Rightarrow> nat \<Rightarrow> lexer \<Rightarrow> spec_Selector parse" where
  "parseFilter E C lf lx =
     bindE (parseLogicalOrExpr E C lf lx) (\<lambda>(lor, lx1). Inr (spec_Filter lor, lx1))"

text \<open>
  \<^verbatim>\<open>parseSlice\<close>: \<open>i\<close> counts the colons, \<open>as\<close> is the array \<^verbatim>\<open>args\<close> of the three parts.
\<close>

fun parseSlice_loop ::
  "nat \<Rightarrow> env \<Rightarrow> nat \<Rightarrow> int option list \<Rightarrow> token \<Rightarrow> lexer \<Rightarrow> spec_Selector parse" where
  "parseSlice_loop 0 E i as t lx = Inl out_of_fuel"
| "parseSlice_loop (Suc n) E i as t lx =
     (if i < 3 then
        bindE
          (if tok t = Rune CHR '':'' then Inr (i + 1, as)
           else if tok t = Integer then bindE (parsePathInt t) (\<lambda>num. Inr (i, as[i := Some num]))
           else Inl (unexpected E t))
          (\<lambda>(i', as').
             let (next, lx1) = skipBlankSpace lx
             in if next = Some CHR '']'' \<or> next = Some CHR '',''
                then Inr (spec_Slice (as' ! 0) (as' ! 1) (as' ! 2), lx1)
                else let (t', lx2) = scan lx1 in parseSlice_loop n E i' as' t' lx2)
      else Inl (unexpected E t))"

definition parseSlice :: "env \<Rightarrow> nat \<Rightarrow> lexer \<Rightarrow> token \<Rightarrow> spec_Selector parse" where
  "parseSlice E lf lx t = parseSlice_loop lf E 0 [None, None, None] t lx"

text \<open>\<^verbatim>\<open>parseSelectors\<close>, with the second \<^verbatim>\<open>switch\<close> of its loop body as \<open>selectors_next\<close>.\<close>

definition selectors_next ::
  "env \<Rightarrow> (spec_Selector list \<Rightarrow> lexer \<Rightarrow> spec_Selector list parse)
     \<Rightarrow> spec_Selector list \<Rightarrow> lexer \<Rightarrow> spec_Selector list parse" where
  "selectors_next E continue sels lx =
     (let (c, lx1) = skipBlankSpace lx
      in if c = Some CHR '','' then continue sels (snd (scan lx1))
         else if c = Some CHR '']'' then Inr (sels, snd (scan lx1))
         else Inl (unexpected E (fst (scan lx1))))"

fun parseSelectors_loop ::
  "nat \<Rightarrow> env \<Rightarrow> callees \<Rightarrow> nat \<Rightarrow> spec_Selector list \<Rightarrow> lexer \<Rightarrow> spec_Selector list parse" where
  "parseSelectors_loop 0 E C lf sels lx = Inl out_of_fuel"
| "parseSelectors_loop (Suc n) E C lf sels lx =
     (let (t, lx1) = scan lx
      in if tok t = Rune CHR ''?'' then
           bindE (parseFilter E C lf lx1) (\<lambda>(filter, lx2).
             selectors_next E (parseSelectors_loop n E C lf) (sels @ [filter]) lx2)
         else if tok t = Rune CHR ''*'' then
           selectors_next E (parseSelectors_loop n E C lf) (sels @ [spec_Wildcard]) lx1
         else if tok t = GoString then
           selectors_next E (parseSelectors_loop n E C lf) (sels @ [spec_Name (val t)]) lx1
         else if tok t = Integer then
           (let (c, lx2) = skipBlankSpace lx1
            in if c = Some CHR '':'' then
                 bindE (parseSlice E lf lx2 t) (\<lambda>(slice, lx3).
                   selectors_next E (parseSelectors_loop n E C lf) (sels @ [slice]) lx3)
               else
                 bindE (parsePathInt t) (\<lambda>idx.
                   selectors_next E (parseSelectors_loop n E C lf) (sels @ [spec_Index idx]) lx2))
         else if tok t = Rune CHR '':'' then
           bindE (parseSlice E lf lx1 t) (\<lambda>(slice, lx2).
             selectors_next E (parseSelectors_loop n E C lf) (sels @ [slice]) lx2)
         else if tok t = BlankSpace then parseSelectors_loop n E C lf sels lx1
         else Inl (unexpected E t))"

definition parseSelectors ::
  "env \<Rightarrow> callees \<Rightarrow> nat \<Rightarrow> lexer \<Rightarrow> spec_Selector list parse" where
  "parseSelectors E C lf lx = parseSelectors_loop lf E C lf [] lx"

definition parseDescendant :: "env \<Rightarrow> callees \<Rightarrow> nat \<Rightarrow> lexer \<Rightarrow> spec_Segment parse" where
  "parseDescendant E C lf lx =
     (let (t, lx1) = scan lx
      in if tok t = Rune CHR ''['' then
           bindE (parseSelectors E C lf lx1) (\<lambda>(sels, lx2). Inr (spec_Descendant sels, lx2))
         else if tok t = Identifier then Inr (spec_Descendant [spec_Name (val t)], lx1)
         else if tok t = Rune CHR ''*'' then Inr (spec_Descendant [spec_Wildcard], lx1)
         else Inl (unexpected E t))"

fun parseQuery_loop ::
  "nat \<Rightarrow> env \<Rightarrow> callees \<Rightarrow> nat \<Rightarrow> bool \<Rightarrow> spec_Segment list \<Rightarrow> lexer \<Rightarrow> spec_PathQuery parse" where
  "parseQuery_loop 0 E C lf rt segs lx = Inl out_of_fuel"
| "parseQuery_loop (Suc n) E C lf rt segs lx =
     (if lex_r lx = Some CHR ''['' then
        (let (_, lx1) = scan lx
         in bindE (parseSelectors E C lf lx1) (\<lambda>(sels, lx2).
              parseQuery_loop n E C lf rt (segs @ [spec_Child sels]) lx2))
      else if lex_r lx = Some CHR ''.'' then
        (let (_, lx1) = scan lx
         in if lex_r lx1 = Some CHR ''.'' then
              (let (_, lx2) = scan lx1
               in bindE (parseDescendant E C lf lx2) (\<lambda>(seg, lx3).
                    parseQuery_loop n E C lf rt (segs @ [seg]) lx3))
            else
              bindE (parseNameOrWildcard E lx1) (\<lambda>(sel, lx2).
                parseQuery_loop n E C lf rt (segs @ [spec_Child [sel]]) lx2))
      else if isBlankSpace (lex_r lx)
          \<and> (peekPastBlankSpace lx = Some CHR ''.'' \<or> peekPastBlankSpace lx = Some CHR ''['')
        then parseQuery_loop n E C lf rt segs (scanBlankSpace lx)
      else Inr (spec_Query rt segs, lx))"

definition parseQuery :: "env \<Rightarrow> callees \<Rightarrow> nat \<Rightarrow> bool \<Rightarrow> lexer \<Rightarrow> spec_PathQuery parse" where
  "parseQuery E C lf rt lx = parseQuery_loop lf E C lf rt [] lx"

text \<open>
  The callees for nesting depth \<open>d\<close>: at depth 0 every recursive call is out of fuel, at
  depth \<open>d + 1\<close> it is the function itself with the callees of depth \<open>d\<close>.
\<close>

primrec descent :: "nat \<Rightarrow> env \<Rightarrow> nat \<Rightarrow> callees" where
  "descent 0 E lf =
     \<lparr>c_parseQuery = (\<lambda>rt lx. Inl out_of_fuel),
      c_parseLogicalOrExpr = (\<lambda>lx. Inl out_of_fuel),
      c_parseFunction = (\<lambda>t lx. Inl out_of_fuel)\<rparr>"
| "descent (Suc d) E lf =
     (let C = descent d E lf
      in \<lparr>c_parseQuery = parseQuery E C lf,
          c_parseLogicalOrExpr = parseLogicalOrExpr E C lf,
          c_parseFunction = parseFunction E C lf\<rparr>)"

text \<open>\<^verbatim>\<open>Parse\<close>, on the tokens of the path.\<close>

definition Parse :: "env \<Rightarrow> nat \<Rightarrow> nat \<Rightarrow> lexer \<Rightarrow> string + spec_PathQuery" where
  "Parse E depth lf lx =
     (let (t, lx1) = scan lx
      in if tok t = Rune CHR ''$'' then
           bindE (parseQuery E (descent depth E lf) lf True lx1) (\<lambda>(q, lx2).
             if lex_r lx2 \<noteq> None then Inl (unexpected E (fst (scan lx2)))
             else Inr q)
         else if tok t = EOF then Inl ''jsonpath: unexpected end of input''
         else Inl (unexpected E t))"

subsection \<open>The function-result discipline as a property of the syntax tree\<close>

text \<open>
  A tree is well-typed when every function call that is a basic expression by itself has
  the declared result type Logical, and every function call that is an operand of a
  comparison has another declared result type. Nothing is asked of the result type of a
  function call under \<^verbatim>\<open>!\<close>, nor of one that is a function argument.
\<close>

fun ok_Selector :: "spec_Selector \<Rightarrow> bool"
  and ok_Segment :: "spec_Segment \<Rightarrow> bool"
  and ok_PathQuery :: "spec_PathQuery \<Rightarrow> bool"
  and ok_LogicalOr :: "spec_LogicalOr \<Rightarrow> bool"
  and ok_BasicExpr :: "spec_BasicExpr \<Rightarrow> bool"
  and ok_FunctionExpr :: "spec_FunctionExpr \<Rightarrow> bool"
  and ok_FunctionExprArg :: "spec_FunctionExprArg \<Rightarrow> bool"
  and ok_CompVal :: "spec_CompVal \<Rightarrow> bool"
where
  "ok_Selector (spec_Filter lo) = ok_LogicalOr lo"
| "ok_Selector (spec_Name s) = True"
| "ok_Selector (spec_Index i) = True"
| "ok_Selector (spec_Slice a b c) = True"
| "ok_Selector spec_Wildcard = True"
| "ok_Segment (spec_Child sels) = list_all ok_Selector sels"
| "ok_Segment (spec_Descendant sels) = list_all ok_Selector sels"
| "ok_PathQuery (spec_Query rt segs) = list_all ok_Segment segs"
| "ok_LogicalOr (spec_LogicalOr ands) = list_all (list_all ok_BasicExpr) ands"
| "ok_BasicExpr (spec_Paren lo) = ok_LogicalOr lo"
| "ok_BasicExpr (spec_NotParen lo) = ok_LogicalOr lo"
| "ok_BasicExpr (spec_ExistExpr q) = ok_PathQuery q"
| "ok_BasicExpr (spec_Nonexistence q) = ok_PathQuery q"
| "ok_BasicExpr (spec_ComparisonExpr l op r) = (ok_CompVal l \<and> ok_CompVal r)"
| "ok_BasicExpr (spec_FuncExpr f) = (ResultType_of f = FuncLogical \<and> ok_FunctionExpr f)"
| "ok_BasicExpr (spec_NotFuncExpr f) = ok_FunctionExpr f"
| "ok_FunctionExpr (spec_FunctionExpr name rt as) = list_all ok_FunctionExprArg as"
| "ok_FunctionExprArg (ArgLiteral l) = True"
| "ok_FunctionExprArg (ArgSingularQuery rt sels) = True"
| "ok_FunctionExprArg (ArgFilterQuery q) = ok_PathQuery q"
| "ok_FunctionExprArg (ArgFunction f) = ok_FunctionExpr f"
| "ok_FunctionExprArg (ArgLogicalOr lo) = ok_LogicalOr lo"
| "ok_CompVal (CompLiteral l) = True"
| "ok_CompVal (CompSingularQuery rt sels) = True"
| "ok_CompVal (CompFunction f) = (ResultType_of f \<noteq> FuncLogical \<and> ok_FunctionExpr f)"

text \<open>The same property of whatever the recursive callees return.\<close>

definition callees_ok :: "callees \<Rightarrow> bool" where
  "callees_ok C =
     ((\<forall>rt lx q lx'. c_parseQuery C rt lx = Inr (q, lx') \<longrightarrow> ok_PathQuery q)
      \<and> (\<forall>lx lo lx'. c_parseLogicalOrExpr C lx = Inr (lo, lx') \<longrightarrow> ok_LogicalOr lo)
      \<and> (\<forall>t lx f lx'. c_parseFunction C t lx = Inr (f, lx') \<longrightarrow> ok_FunctionExpr f))"

subsection \<open>Token lists of example queries\<close>

definition punct :: "char \<Rightarrow> int \<Rightarrow> token" where
  "punct c p = \<lparr>tok = Rune c, val = [c], pos = p\<rparr>"

definition ident :: "string \<Rightarrow> int \<Rightarrow> token" where
  "ident s p = \<lparr>tok = Identifier, val = s, pos = p\<rparr>"

definition gostring :: "string \<Rightarrow> int \<Rightarrow> token" where
  "gostring s p = \<lparr>tok = GoString, val = s, pos = p\<rparr>"

definition int_tok :: "string \<Rightarrow> int \<Rightarrow> token" where
  "int_tok s p = \<lparr>tok = Integer, val = s, pos = p\<rparr>"

definition blank :: "int \<Rightarrow> token" where
  "blank p = \<lparr>tok = BlankSpace, val = '' '', pos = p\<rparr>"

text \<open>An environment for the examples: a token is named by its text; no number is read.\<close>

definition E0 :: env where
  "E0 = \<lparr>tok_name = (\<lambda>t. val t), ParseFloat = (\<lambda>s. Inl ErrSyntax)\<rparr>"

text \<open>\<^verbatim>\<open>$[?!length(@.a)]\<close>\<close>

definition query_not_length :: lexer where
  "query_not_length = \<lparr>toks = [punct CHR ''$'' 0, punct CHR ''['' 1, punct CHR ''?'' 2,
      punct CHR ''!'' 3, ident ''length'' 4, punct CHR ''('' 10, punct CHR ''@'' 11,
      punct CHR ''.'' 12, ident ''a'' 13, punct CHR '')'' 14, punct CHR '']'' 15],
      end_pos = 16\<rparr>"

text \<open>\<^verbatim>\<open>$[?length(@.a)]\<close>\<close>

definition query_length :: lexer where
  "query_length = \<lparr>toks = [punct CHR ''$'' 0, punct CHR ''['' 1, punct CHR ''?'' 2,
      ident ''length'' 3, punct CHR ''('' 9, punct CHR ''@'' 10, punct CHR ''.'' 11,
      ident ''a'' 12, punct CHR '')'' 13, punct CHR '']'' 14], end_pos = 15\<rparr>"

text \<open>\<^verbatim>\<open>$[?match(value(@.a), "x")]\<close>\<close>

definition query_match_value :: lexer where
  "query_match_value = \<lparr>toks = [punct CHR ''$'' 0, punct CHR ''['' 1, punct CHR ''?'' 2,
      ident ''match'' 3, punct CHR ''('' 8, ident ''value'' 9, punct CHR ''('' 14,
      punct CHR ''@'' 15, punct CHR ''.'' 16, ident ''a'' 17, punct CHR '')'' 18,
      punct CHR '','' 19, blank 20, gostring ''x'' 21, punct CHR '')'' 24,
      punct CHR '']'' 25], end_pos = 26\<rparr>"

text \<open>\<^verbatim>\<open>$[?@.a == match(@.b, "x")]\<close>\<close>

definition query_compare_match :: lexer where
  "query_compare_match = \<lparr>toks = [punct CHR ''$'' 0, punct CHR ''['' 1, punct CHR ''?'' 2,
      punct CHR ''@'' 3, punct CHR ''.'' 4, ident ''a'' 5, blank 6,
      punct CHR ''='' 7, punct CHR ''='' 8, blank 9,
      ident ''match'' 10, punct CHR ''('' 15, punct CHR ''@'' 16, punct CHR ''.'' 17,
      ident ''b'' 18, punct CHR '','' 19, blank 20, gostring ''x'' 21, punct CHR '')'' 24,
      punct CHR '']'' 25], end_pos = 26\<rparr>"

text \<open>\<^verbatim>\<open>$[?match(@.b, "x") == true]\<close>\<close>

definition query_match_compare :: lexer where
  "query_match_compare = \<lparr>toks = [punct CHR ''$'' 0, punct CHR ''['' 1, punct CHR ''?'' 2,
      ident ''match'' 3, punct CHR ''('' 8, punct CHR ''@'' 9, punct CHR ''.'' 10,
      ident ''b'' 11, punct CHR '','' 12, blank 13, gostring ''x'' 14, punct CHR '')'' 17,
      blank 18, punct CHR ''='' 19, punct CHR ''='' 20, blank 21,
      \<lparr>tok = BoolTrue, val = ''true'', pos = 22\<rparr>, punct CHR '']'' 26], end_pos = 27\<rparr>"

text \<open>\<^verbatim>\<open>$[?length(@.a) == 2]\<close>\<close>

definition query_length_compared :: lexer where
  "query_length_compared = \<lparr>toks = [punct CHR ''$'' 0, punct CHR ''['' 1, punct CHR ''?'' 2,
      ident ''length'' 3, punct CHR ''('' 9, punct CHR ''@'' 10, punct CHR ''.'' 11,
      ident ''a'' 12, punct CHR '')'' 13, blank 14, punct CHR ''='' 15, punct CHR ''='' 16,
      blank 17, \<lparr>tok = Integer, val = ''2'', pos = 18\<rparr>, punct CHR '']'' 19],
      end_pos = 20\<rparr>"

text \<open>\<^verbatim>\<open>$[-0]\<close> and \<^verbatim>\<open>$[1:-0]\<close>\<close>

definition query_minus_zero :: lexer where
  "query_minus_zero = \<lparr>toks = [punct CHR ''$'' 0, punct CHR ''['' 1, int_tok ''-0'' 2,
      punct CHR '']'' 4], end_pos = 5\<rparr>"

definition query_slice_minus_zero :: lexer where
  "query_slice_minus_zero = \<lparr>toks = [punct CHR ''$'' 0, punct CHR ''['' 1, int_tok ''1'' 2,
      punct CHR '':'' 3, int_tok ''-0'' 4, punct CHR '']'' 6], end_pos = 7\<rparr>"

text \<open>\<^verbatim>\<open>$[1:5:2]\<close> and \<^verbatim>\<open>$[::-1]\<close>\<close>

definition query_slice_1_5_2 :: lexer where
  "query_slice_1_5_2 = \<lparr>toks = [punct CHR ''$'' 0, punct CHR ''['' 1, int_tok ''1'' 2,
      punct CHR '':'' 3, int_tok ''5'' 4, punct CHR '':'' 5, int_tok ''2'' 6,
      punct CHR '']'' 7], end_pos = 8\<rparr>"

definition query_slice_reverse :: lexer where
  "query_slice_reverse = \<lparr>toks = [punct CHR ''$'' 0, punct CHR ''['' 1, punct CHR '':'' 2,
      punct CHR '':'' 3, int_tok ''-1'' 4, punct CHR '']'' 6], end_pos = 7\<rparr>"

section \<open>Lemmas on panics and concatenation\<close>

lemma bindP_Inl [simp]: "bindP (Inl e) f = Inl e"
  by (simp add: bindP_def)

lemma bindP_Inr [simp]: "bindP (Inr x) f = f x"
  by (simp add: bindP_def)

lemma appP_Inl [simp]: "appP (Inl e) b = Inl e"
  by (simp add: appP_def)

lemma appP_Inr_Inl [simp]: "appP (Inr x) (Inl e) = Inl e"
  by (simp add: appP_def)

lemma appP_Inr_Inr [simp]: "appP (Inr x) (Inr y) = Inr (x @ y)"
  by (simp add: appP_def)

lemma appP_Nil_left [simp]: "appP (Inr []) b = b"
  by (cases b) simp_all

lemma appP_Nil_right [simp]: "appP a (Inr []) = a"
  by (cases a) simp_all

lemma appP_assoc: "appP (appP a b) c = appP a (appP b c)"
  by (cases a; cases b; cases c) simp_all

lemma concatP_Nil [simp]: "concatP [] = Inr []"
  by (simp add: concatP_def)

lemma concatP_Cons [simp]: "concatP (r # rs) = appP r (concatP rs)"
  by (simp add: concatP_def)

lemma concatP_append: "concatP (rs @ ss) = appP (concatP rs) (concatP ss)"
  by (induction rs) (simp_all add: appP_assoc)

section \<open>The convertibility table\<close>

lemmas type_consts =
  PathValue_def PathLogical_def PathNodes_def
  FuncLiteral_def FuncSingularQuery_def FuncValue_def FuncNodeList_def FuncLogical_def

text \<open>
  C5. The parse-time convertibility relation is the table of the specification:
  Literal and Value convert only to Value; SingularQuery converts to Value, Logical and
  Nodes; NodeList converts to Logical and Nodes but not to Value; Logical converts only
  to Logical.
\<close>

theorem convertsTo_table:
  "convertsTo FuncLiteral PathValue \<and> \<not> convertsTo FuncLiteral PathLogical
     \<and> \<not> convertsTo FuncLiteral PathNodes
   \<and> convertsTo FuncSingularQuery PathValue \<and> convertsTo FuncSingularQuery PathLogical
     \<and> convertsTo FuncSingularQuery PathNodes
   \<and> convertsTo FuncValue PathValue \<and> \<not> convertsTo FuncValue PathLogical
     \<and> \<not> convertsTo FuncValue PathNodes
   \<and> \<not> convertsTo FuncNodeList PathValue \<and> convertsTo FuncNodeList PathLogical
     \<and> convertsTo FuncNodeList PathNodes
   \<and> \<not> convertsTo FuncLogical PathValue \<and> convertsTo FuncLogical PathLogical
     \<and> \<not> convertsTo FuncLogical PathNodes"
  by (simp add: convertsTo_def type_consts)

section \<open>match and search\<close>

lemmas match_eval =
  matchFunc_def searchFunc_def arg_any_def index_at_def newValueTypeFrom_def any_of_def
  compileRegex_def syntax_Parse_def regexp_Compile_def is_meta_def logicalFrom_def
  MatchString_def full_match_def clrf_def

text \<open>An operand that is a value but not a string gives false, as documented.\<close>

lemma match_non_string:
  "\<forall>s. a \<noteq> JString s \<Longrightarrow>
     matchFunc [Some (ValueType a), b] = Inr (Some (LogicalType LogicalFalse))
     \<and> searchFunc [Some (ValueType a), b] = Inr (Some (LogicalType LogicalFalse))"
  by (cases a) (simp_all add: matchFunc_def searchFunc_def arg_any_def index_at_def
      newValueTypeFrom_def any_of_def)

text \<open>
  C1. The claim: when either operand of \<^verbatim>\<open>match\<close> or \<^verbatim>\<open>search\<close> is nothing or not a
  string, the function returns false and never raises. On the code an operand that is
  nothing makes \<^verbatim>\<open>newValueTypeFrom\<close> return a nil pointer whose field is then read: the
  call panics, for the first operand and, when the first is a string, for the second.
  \<^verbatim>\<open>lengthFunc\<close> tests the pointer and returns nothing.
\<close>

theorem match_nothing_panics:
  "matchFunc [None, Some (ValueType (JString ''a''))] = Inl NilDereference
   \<and> matchFunc [Some (ValueType (JString ''a'')), None] = Inl NilDereference
   \<and> searchFunc [None, Some (ValueType (JString ''a''))] = Inl NilDereference
   \<and> searchFunc [Some (ValueType (JString ''a'')), None] = Inl NilDereference
   \<and> lengthFunc [None] = Inr None"
  by (simp add: matchFunc_def searchFunc_def lengthFunc_def arg_any_def index_at_def
      newValueTypeFrom_def any_of_def)

text \<open>
  The scenario of the specification: \<^verbatim>\<open>.\<close> matches neither a newline nor two characters.
\<close>

lemma match_dot_scenario:
  "matchFunc [Some (ValueType (JString ''axb'')), Some (ValueType (JString ''a.b''))]
     = Inr (Some (LogicalType LogicalTrue))
   \<and> matchFunc [Some (ValueType (JString [CHR ''a'', CHR 0x0A, CHR ''b''])),
        Some (ValueType (JString ''a.b''))]
     = Inr (Some (LogicalType LogicalFalse))
   \<and> matchFunc [Some (ValueType (JString ''ayyb'')), Some (ValueType (JString ''a.b''))]
     = Inr (Some (LogicalType LogicalFalse))"
  by (simp add: match_eval)

lemma match_without_alternation:
  "matchFunc [Some (ValueType (JString ''ab'')), Some (ValueType (JString ''ab''))]
     = Inr (Some (LogicalType LogicalTrue))
   \<and> matchFunc [Some (ValueType (JString ''abc'')), Some (ValueType (JString ''ab''))]
     = Inr (Some (LogicalType LogicalFalse))
   \<and> searchFunc [Some (ValueType (JString ''xabc'')), Some (ValueType (JString ''ab''))]
     = Inr (Some (LogicalType LogicalTrue))"
  by (simp add: match_eval)

text \<open>
  C4. The claim: \<^verbatim>\<open>match(s, pat)\<close> is true iff \<^verbatim>\<open>pat\<close> matches the whole of \<^verbatim>\<open>s\<close>, also for
  a pattern with a top-level alternation. The code compiles the text
  \<^verbatim>\<open>\A\<close> + \<^verbatim>\<open>pat\<close> + \<^verbatim>\<open>\z\<close> without grouping \<^verbatim>\<open>pat\<close>, so for \<^verbatim>\<open>a|b\<close> each anchor binds to
  one alternative only: \<^verbatim>\<open>match\<close> holds of \<^verbatim>\<open>ac\<close> and of \<^verbatim>\<open>cb\<close>, which \<^verbatim>\<open>a|b\<close> does not
  match in full.
\<close>

theorem match_alternation_unanchored:
  "matchFunc [Some (ValueType (JString ''ac'')), Some (ValueType (JString ''a|b''))]
     = Inr (Some (LogicalType LogicalTrue))
   \<and> matchFunc [Some (ValueType (JString ''cb'')), Some (ValueType (JString ''a|b''))]
     = Inr (Some (LogicalType LogicalTrue))
   \<and> map_option (\<lambda>re. full_match re ''ac'') (compileRegex ''a|b'') = Some False
   \<and> map_option (\<lambda>re. full_match re ''cb'') (compileRegex ''a|b'') = Some False"
  by (simp add: match_eval)

section \<open>Slices\<close>

subsection \<open>Go ints read as integers\<close>

lemma sint_add_cases:
  fixes i step :: go_int
  assumes "0 \<le> sint i" "0 < sint step"
  shows "(sint (i + step) = sint i + sint step \<and> sint i + sint step < 2 ^ 63)
       \<or> (sint (i + step) < 0 \<and> 2 ^ 63 \<le> sint i + sint step)"
proof (cases "sint i + sint step < 2 ^ 63")
  case True
  then have "signed_take_bit 63 (sint i + sint step) = sint i + sint step"
    using assms by (intro signed_take_bit_int_eq_self) simp_all
  then show ?thesis using True by (simp add: sint_word_ariths)
next
  case False
  then have ge: "2 ^ 63 \<le> sint i + sint step" by simp
  have "sint i < 2 ^ 63" "sint step < 2 ^ 63"
    using sint_lt [of i] sint_lt [of step] by simp_all
  moreover have "signed_take_bit 63 (sint i + sint step) \<le> sint i + sint step - 2 ^ 64"
    using signed_take_bit_int_less_eq [OF ge] by simp
  moreover have "\<And>t a b :: int. a < 2 ^ 63 \<Longrightarrow> b < 2 ^ 63 \<Longrightarrow> t \<le> a + b - 2 ^ 64 \<Longrightarrow> t < 0"
    by simp
  ultimately have "signed_take_bit 63 (sint i + sint step) < 0" by blast
  then show ?thesis using ge by (simp add: sint_word_ariths)
qed

lemma sint_add_neg:
  fixes i step :: go_int
  assumes "0 \<le> sint i" "sint step < 0"
  shows "sint (i + step) = sint i + sint step"
proof -
  have "- (2 ^ 63) \<le> sint step" "sint i < 2 ^ 63"
    using sint_ge [of step] sint_lt [of i] by simp_all
  then have "signed_take_bit 63 (sint i + sint step) = sint i + sint step"
    using assms by (intro signed_take_bit_int_eq_self) simp_all
  then show ?thesis by (simp add: sint_word_ariths)
qed

lemma sint_of_nat_small: "k < 2 ^ 63 \<Longrightarrow> sint (word_of_nat k :: go_int) = int k"
proof -
  assume k: "k < 2 ^ 63"
  have "(word_of_nat k :: go_int) = word_of_int (int k)" by simp
  moreover have "sint (word_of_int (int k) :: go_int) = signed_take_bit 63 (int k)"
    by (simp only: sint_sbintrunc') simp
  ultimately have "sint (word_of_nat k :: go_int) = signed_take_bit 63 (int k)"
    by (simp only:)
  also have "\<dots> = int k"
    using k by (intro signed_take_bit_int_eq_self) simp_all
  finally show ?thesis .
qed

lemma sint_pred:
  fixes n :: go_int
  assumes "0 \<le> sint n"
  shows "sint (n - 1) = sint n - 1"
proof -
  have "sint n < 2 ^ 63" using sint_lt [of n] by simp
  then have "signed_take_bit 63 (sint n - 1) = sint n - 1"
    using assms by (intro signed_take_bit_int_eq_self) simp_all
  then show ?thesis by (simp add: sint_word_ariths)
qed

lemma sint_add_neg_nonneg:
  fixes x n :: go_int
  assumes "sint x < 0" "0 \<le> sint n"
  shows "sint (x + n) = sint x + sint n"
proof -
  have "- (2 ^ 63) \<le> sint x" "sint n < 2 ^ 63"
    using sint_ge [of x] sint_lt [of n] by simp_all
  then have "signed_take_bit 63 (sint x + sint n) = sint x + sint n"
    using assms by (intro signed_take_bit_int_eq_self) simp_all
  then show ?thesis by (simp add: sint_word_ariths)
qed

subsection \<open>The loop against the reference iteration\<close>

text \<open>
  As long as \<^verbatim>\<open>i += s.step\<close> does not leave the range of a Go \<^verbatim>\<open>int\<close>, the loop reads the
  elements at the indexes of the reference iteration. A negative step never leaves it.
\<close>

lemma slice_up_indices:
  "0 \<le> sint i \<Longrightarrow> sint upper \<le> int (length xs) \<Longrightarrow> int (length xs) + sint step \<le> 2 ^ 63 \<Longrightarrow>
   slice_up xs i upper step =
     Inr (map (\<lambda>j. xs ! nat j) (ref_up (sint i) (sint upper) (sint step)))"
proof (induction xs i upper step rule: slice_up.induct)
  case (1 xs i upper step)
  show ?case
  proof (cases "0 <s step \<and> i <s upper")
    case True
    then have st: "0 < sint step" and lt: "sint i < sint upper"
      by (simp_all add: word_sless_alt)
    have e: "elem_at xs i = Inr (xs ! nat (sint i))"
      using lt 1(2,3) by (simp add: elem_at_def)
    have "sint i + sint step < 2 ^ 63" using lt 1(3,4) by simp
    with sint_add_cases [OF 1(2) st]
    have s: "sint (i + step) = sint i + sint step" by auto
    have IH: "slice_up xs (i + step) upper step =
        Inr (map (\<lambda>j. xs ! nat j) (ref_up (sint i + sint step) (sint upper) (sint step)))"
      using 1(1) [OF True e] 1(2,3,4) st s by simp
    show ?thesis
      apply (subst slice_up.simps)
      apply (subst ref_up.simps)
      using True st lt e IH by (simp add: bindP_def)
  next
    case False
    then have "\<not> (0 < sint step \<and> sint i < sint upper)"
      by (simp add: word_sless_alt)
    then show ?thesis using False
      apply (subst slice_up.simps)
      apply (subst ref_up.simps)
      by auto
  qed
qed

lemma slice_down_indices:
  "sint i < int (length xs) \<Longrightarrow> - 1 \<le> sint lower \<Longrightarrow>
   slice_down xs i lower step =
     Inr (map (\<lambda>j. xs ! nat j) (ref_down (sint i) (sint lower) (sint step)))"
proof (induction xs i lower step rule: slice_down.induct)
  case (1 xs i lower step)
  show ?case
  proof (cases "step <s 0 \<and> lower <s i")
    case True
    then have st: "sint step < 0" and lt: "sint lower < sint i"
      by (simp_all add: word_sless_alt)
    have i0: "0 \<le> sint i" using lt 1(3) by simp
    have e: "elem_at xs i = Inr (xs ! nat (sint i))"
      using i0 1(2) by (simp add: elem_at_def)
    have s: "sint (i + step) = sint i + sint step"
      using sint_add_neg [OF i0 st] .
    have IH: "slice_down xs (i + step) lower step =
        Inr (map (\<lambda>j. xs ! nat j) (ref_down (sint i + sint step) (sint lower) (sint step)))"
      using 1(1) [OF True e] 1(2,3) st s by simp
    show ?thesis
      apply (subst slice_down.simps)
      apply (subst ref_down.simps)
      using True st lt e IH by (simp add: bindP_def)
  next
    case False
    then have "\<not> (sint step < 0 \<and> sint lower < sint i)"
      by (simp add: word_sless_alt)
    then show ?thesis using False
      apply (subst slice_down.simps)
      apply (subst ref_down.simps)
      by auto
  qed
qed


lemma sint_normalize:
  fixes x n :: go_int
  assumes "0 \<le> sint n"
  shows "sint (normalize x n) = ref_normalize (sint x) (sint n)"
  using assms sint_add_neg_nonneg [of x n]
  by (simp add: normalize_def ref_normalize_def word_sless_alt)

lemma sint_clamp: "sint (clamp x lo hi) = ref_clamp (sint x) (sint lo) (sint hi)"
  by (simp add: clamp_def ref_clamp_def word_sless_alt)

lemma bounds_ref:
  fixes n :: go_int
  assumes "0 \<le> sint n"
  shows "map_prod sint sint (bounds start end' step n) =
     ref_bounds (map_option sint start) (map_option sint end') (sint step) (sint n)"
proof -
  have z: "(step = 0) = (sint step = 0)" by (simp add: signed_eq_0_iff)
  have p: "(0 <s step) = (0 < sint step)" by (simp add: word_sless_alt)
  show ?thesis
    using assms
    by (cases start; cases end')
      (simp_all add: bounds_def ref_bounds_def Let_def z p sint_clamp sint_normalize sint_pred)
qed

lemma ref_bounds_range:
  assumes "0 \<le> n" "ref_bounds start end' step n = (lower, upper)"
  shows "0 < step \<Longrightarrow> 0 \<le> lower \<and> lower \<le> n \<and> 0 \<le> upper \<and> upper \<le> n"
    and "step < 0 \<Longrightarrow> - 1 \<le> lower \<and> lower \<le> n - 1 \<and> - 1 \<le> upper \<and> upper \<le> n - 1"
  using assms by (auto simp: ref_bounds_def ref_clamp_def Let_def split: if_splits)

text \<open>
  On an array that a Go program can hold (\<^verbatim>\<open>len\<close> is an \<^verbatim>\<open>int\<close>), and with a positive step
  only if \<open>len + step\<close> is at most \<open>2 ^ 63\<close>, the slice selects what the reference formula
  selects. The steps that the parser admits are at most \<open>2 ^ 53 - 1\<close>.
\<close>

lemma slice_select_ref:
  assumes len: "length xs < 2 ^ 63"
    and ovf: "0 < sint step \<longrightarrow> int (length xs) + sint step \<le> 2 ^ 63"
  shows "slice_select start end' step xs =
     Inr (ref_slice (map_option sint start) (map_option sint end') (sint step) xs)"
proof -
  let ?n = "word_of_nat (length xs) :: go_int"
  have n: "sint ?n = int (length xs)" using len by (rule sint_of_nat_small)
  obtain lower upper where b: "bounds start end' step ?n = (lower, upper)"
    by (cases "bounds start end' step ?n")
  have rb: "ref_bounds (map_option sint start) (map_option sint end') (sint step)
      (int (length xs)) = (sint lower, sint upper)"
    using bounds_ref [of ?n start end' step] b n by simp
  have p: "(0 <s step) = (0 < sint step)" "(step <s 0) = (sint step < 0)"
    by (simp_all add: word_sless_alt)
  show ?thesis
  proof (cases "0 < sint step")
    case True
    from ref_bounds_range(1) [OF _ rb True]
    have "0 \<le> sint lower" "sint upper \<le> int (length xs)" by simp_all
    from slice_up_indices [OF this] ovf True
    show ?thesis by (simp add: slice_select_def ref_slice_def b rb p)
  next
    case False
    show ?thesis
    proof (cases "sint step < 0")
      case True
      from ref_bounds_range(2) [OF _ rb True]
      have "sint upper < int (length xs)" "- 1 \<le> sint lower" by simp_all
      from slice_down_indices [OF this] True
      show ?thesis by (simp add: slice_select_def ref_slice_def b rb p)
    next
      case False
      with \<open>\<not> 0 < sint step\<close> show ?thesis
        by (simp add: slice_select_def ref_slice_def b rb p)
    qed
  qed
qed


subsection \<open>The reference formula\<close>

lemma ref_down_rev:
  "k \<le> length xs \<Longrightarrow> map (\<lambda>i. xs ! nat i) (ref_down (int k - 1) (- 1) (- 1)) = rev (take k xs)"
proof (induction k)
  case 0
  show ?case by (subst ref_down.simps) simp
next
  case (Suc k)
  then have IH: "map (\<lambda>i. xs ! nat i) (ref_down (int k - 1) (- 1) (- 1)) = rev (take k xs)"
    and k: "k < length xs" by simp_all
  have "ref_down (int (Suc k) - 1) (- 1) (- 1) = int k # ref_down (int k - 1) (- 1) (- 1)"
    by (subst ref_down.simps) simp
  then have "map (\<lambda>i. xs ! nat i) (ref_down (int (Suc k) - 1) (- 1) (- 1)) =
      xs ! k # rev (take k xs)"
    using IH by simp
  also have "xs ! k # rev (take k xs) = rev (take (Suc k) xs)"
    using k by (simp add: take_Suc_conv_app_nth)
  finally show ?case .
qed

lemma ref_up_drop:
  "i \<le> length xs \<Longrightarrow> map (\<lambda>j. xs ! nat j) (ref_up (int i) (int (length xs)) 1) = drop i xs"
proof (induction "length xs - i" arbitrary: i)
  case 0
  then show ?case by (subst ref_up.simps) simp
next
  case (Suc d)
  then have i: "i < length xs" and d: "d = length xs - Suc i" by simp_all
  have IH: "map (\<lambda>j. xs ! nat j) (ref_up (1 + int i) (int (length xs)) 1) = drop (Suc i) xs"
    using Suc.hyps(1) [OF d] i by simp
  have "ref_up (int i) (int (length xs)) 1 = int i # ref_up (1 + int i) (int (length xs)) 1"
    using i by (subst ref_up.simps) (simp add: add.commute)
  then have "map (\<lambda>j. xs ! nat j) (ref_up (int i) (int (length xs)) 1) =
      xs ! i # drop (Suc i) xs"
    using IH by simp
  also have "xs ! i # drop (Suc i) xs = drop i xs"
    using i by (simp add: Cons_nth_drop_Suc)
  finally show ?case .
qed

lemma ref_slice_reverse: "ref_slice None None (- 1) xs = rev xs"
  using ref_down_rev [of "length xs" xs]
  by (simp add: ref_slice_def ref_bounds_def ref_clamp_def)

lemma ref_slice_forward: "ref_slice None None 1 xs = xs"
  using ref_up_drop [of 0 xs]
  by (simp add: ref_slice_def ref_bounds_def ref_clamp_def)

lemma ref_slice_zero: "ref_slice start end' 0 xs = []"
  by (simp add: ref_slice_def ref_bounds_def)

text \<open>The indexes of the iteration in closed form: \<open>i\<close>, \<open>i + step\<close>, \<open>i + 2 * step\<close>, ...\<close>

lemma ref_up_steps:
  "0 < step \<Longrightarrow>
   ref_up i upper step = map (\<lambda>k. i + int k * step) [0..<nat ((upper - i + step - 1) div step)]"
proof (induction i upper step rule: ref_up.induct)
  case (1 i upper step)
  show ?case
  proof (cases "i < upper")
    case True
    let ?c = "nat ((upper - (i + step) + step - 1) div step)"
    have IH: "ref_up (i + step) upper step = map (\<lambda>k. i + step + int k * step) [0..<?c]"
      using 1(1) True 1(2) by simp
    have e1: "upper - i + step - 1 = (upper - i - 1) + step"
      and e2: "upper - (i + step) + step - 1 = upper - i - 1" by simp_all
    have "((upper - i - 1) + step) div step = (upper - i - 1) div step + 1"
      using 1(2) by (intro div_add_self2) simp
    then have "(upper - i + step - 1) div step = (upper - (i + step) + step - 1) div step + 1"
      by (simp only: e1 e2)
    moreover have "0 \<le> (upper - (i + step) + step - 1) div step"
      using True 1(2) by (simp add: pos_imp_zdiv_nonneg_iff)
    ultimately have c: "nat ((upper - i + step - 1) div step) = Suc ?c"
      by simp
    have "map (\<lambda>k. i + int k * step) [0..<Suc ?c] =
        i # map (\<lambda>k. i + step + int k * step) [0..<?c]"
      by (simp add: upt_conv_Cons map_Suc_upt [symmetric] algebra_simps del: upt_Suc)
    then show ?thesis
      using True 1(2) IH c by (subst ref_up.simps) simp
  next
    case False
    then have "upper - i + step - 1 \<le> step - 1" by simp
    from zdiv_mono1 [OF this 1(2)]
    have "(upper - i + step - 1) div step \<le> 0"
      using 1(2) by (simp add: div_pos_pos_trivial)
    then show ?thesis using False by (subst ref_up.simps) simp
  qed
qed


lemma ref_down_steps:
  "step < 0 \<Longrightarrow>
   ref_down i lower step =
     map (\<lambda>k. i + int k * step) [0..<nat ((i - lower - step - 1) div (- step))]"
proof (induction i lower step rule: ref_down.induct)
  case (1 i lower step)
  show ?case
  proof (cases "lower < i")
    case True
    let ?c = "nat ((i + step - lower - step - 1) div (- step))"
    have IH: "ref_down (i + step) lower step = map (\<lambda>k. i + step + int k * step) [0..<?c]"
      using 1(1) True 1(2) by simp
    have e1: "i - lower - step - 1 = (i - lower - 1) + (- step)"
      and e2: "i + step - lower - step - 1 = i - lower - 1" by simp_all
    have "((i - lower - 1) + (- step)) div (- step) = (i - lower - 1) div (- step) + 1"
      using 1(2) by (intro div_add_self2) simp
    then have "(i - lower - step - 1) div (- step) = (i + step - lower - step - 1) div (- step) + 1"
      by (simp only: e1 e2)
    moreover have "0 \<le> (i + step - lower - step - 1) div (- step)"
      using True 1(2) by (simp add: pos_imp_zdiv_nonneg_iff)
    ultimately have c: "nat ((i - lower - step - 1) div (- step)) = Suc ?c"
      by simp
    have "map (\<lambda>k. i + int k * step) [0..<Suc ?c] =
        i # map (\<lambda>k. i + step + int k * step) [0..<?c]"
      by (simp add: upt_conv_Cons map_Suc_upt [symmetric] algebra_simps del: upt_Suc)
    then show ?thesis
      using True 1(2) IH c by (subst ref_down.simps) simp
  next
    case False
    then have "i - lower - step - 1 \<le> - step - 1" by simp
    moreover have "0 < - step" using 1(2) by simp
    ultimately have "(i - lower - step - 1) div (- step) \<le> (- step - 1) div (- step)"
      by (rule zdiv_mono1)
    then have "(i - lower - step - 1) div (- step) \<le> 0"
      using 1(2) by (simp add: div_pos_pos_trivial)
    then show ?thesis using False by (subst ref_down.simps) simp
  qed
qed

subsection \<open>Defaults, and the table of the test\<close>

lemma bounds_defaults:
  fixes n :: go_int
  assumes "0 \<le> sint n"
  shows "0 <s step \<Longrightarrow> bounds None None step n = (0, n)"
    and "step <s 0 \<Longrightarrow> bounds None None step n = (- 1, n - 1)"
proof -
  have "sint (n - 1) = sint n - 1" using assms by (rule sint_pred)
  then have m: "\<not> n - 1 <s - 1" using assms by (simp add: word_sless_alt)
  have z: "\<not> n <s 0" using assms by (simp add: word_sless_alt)
  show "0 <s step \<Longrightarrow> bounds None None step n = (0, n)"
    using z by (auto simp: bounds_def clamp_def word_sless_alt)
  show "step <s 0 \<Longrightarrow> bounds None None step n = (- 1, n - 1)"
    using m by (auto simp: bounds_def clamp_def word_sless_alt)
qed

lemma slice_select_reverse:
  "length xs < 2 ^ 63 \<Longrightarrow> slice_select None None (- 1) xs = Inr (rev xs)"
  using slice_select_ref [of xs "- 1" None None] by (simp add: ref_slice_reverse)

lemma slice_select_forward:
  "length xs < 2 ^ 63 \<Longrightarrow> slice_select None None 1 xs = Inr xs"
  using slice_select_ref [of xs 1 None None] by (simp add: ref_slice_forward)

lemma slice_select_zero: "slice_select start end' 0 xs = Inr []"
  by (simp add: slice_select_def bounds_def)

text \<open>
  The table of \<^verbatim>\<open>TestSliceBounds\<close>: \<open>bounds\<close> on the lengths the test tries, and what
  \<^verbatim>\<open>extract\<close> returns on the array of seven strings.
\<close>

lemma TestSliceBounds_cases:
  "bounds None None 1 10 = (0, 10) \<and> bounds None None 1 3 = (0, 3)
   \<and> bounds None None 1 99 = (0, 99)
   \<and> bounds None None 0 10 = (0, 0) \<and> bounds None None 0 3 = (0, 0)
   \<and> bounds None None 0 99 = (0, 0)
   \<and> bounds (Some 3) (Some 8) 2 10 = (3, 8) \<and> bounds (Some 3) (Some 8) 2 3 = (3, 3)
   \<and> bounds (Some 3) (Some 8) 2 99 = (3, 8)
   \<and> bounds (Some 1) (Some 3) 1 10 = (1, 3) \<and> bounds (Some 1) (Some 3) 1 2 = (1, 2)
   \<and> bounds (Some 1) (Some 3) 1 99 = (1, 3)
   \<and> bounds (Some 5) None 1 10 = (5, 10) \<and> bounds (Some 5) None 1 8 = (5, 8)
   \<and> bounds (Some 5) None 1 99 = (5, 99)
   \<and> bounds (Some 1) (Some 5) 2 10 = (1, 5) \<and> bounds (Some 1) (Some 5) 2 4 = (1, 4)
   \<and> bounds (Some 1) (Some 5) 2 99 = (1, 5)
   \<and> bounds (Some 5) (Some 1) (- 2) 10 = (1, 5) \<and> bounds (Some 5) (Some 1) (- 2) 4 = (1, 3)
   \<and> bounds (Some 5) (Some 1) (- 2) 99 = (1, 5)
   \<and> bounds None None (- 1) 10 = (- 1, 9) \<and> bounds None None (- 1) 4 = (- 1, 3)
   \<and> bounds None None (- 1) 99 = (- 1, 98)"
  by (simp add: bounds_def clamp_def normalize_def word_sless_alt)

lemma TestSliceBounds_extract:
  "slice_select None None 1 json7 = Inr json7
   \<and> slice_select None None 0 json7 = Inr []
   \<and> slice_select (Some 3) (Some 8) 2 json7 = Inr [JString ''d'', JString ''f'']
   \<and> slice_select (Some 1) (Some 3) 1 json7 = Inr [JString ''b'', JString ''c'']
   \<and> slice_select (Some 5) None 1 json7 = Inr [JString ''f'', JString ''g'']
   \<and> slice_select (Some 1) (Some 5) 2 json7 = Inr [JString ''b'', JString ''d'']
   \<and> slice_select (Some 5) (Some 1) (- 2) json7 = Inr [JString ''f'', JString ''d'']
   \<and> slice_select None None (- 1) json7 = Inr (rev json7)"
  by code_simp

subsection \<open>Overflow of the loop counter\<close>

text \<open>
  When \<^verbatim>\<open>i += s.step\<close> passes the greatest \<^verbatim>\<open>int\<close>, the counter becomes negative, is still
  less than \<open>upper\<close>, and \<^verbatim>\<open>json[i]\<close> panics.
\<close>

lemma slice_up_wraps:
  assumes "0 < sint step" "0 \<le> sint i" "sint i < sint upper" "sint i < int (length xs)"
    and "2 ^ 63 \<le> sint i + sint step"
  shows "slice_up xs i upper step = Inl IndexOutOfRange"
proof -
  from sint_add_cases [OF assms(2,1)] assms(5)
  have neg: "sint (i + step) < 0" by auto
  then have e': "elem_at xs (i + step) = Inl IndexOutOfRange"
    by (simp add: elem_at_def)
  have g': "0 <s step \<and> i + step <s upper"
    using assms(1,2,3) neg by (simp add: word_sless_alt)
  have "slice_up xs (i + step) upper step = Inl IndexOutOfRange"
    using g' e' by (subst slice_up.simps) simp
  moreover have "elem_at xs i = Inr (xs ! nat (sint i))"
    using assms(2,4) by (simp add: elem_at_def)
  moreover have "0 <s step \<and> i <s upper"
    using assms(1,3) by (simp add: word_sless_alt)
  ultimately show ?thesis
    by (subst slice_up.simps) (simp add: bindP_def)
qed


section \<open>Descendant segments\<close>

lemma preorder_members: "preorder v = v # concat (map preorder (members v))"
  by (cases v) (simp_all add: comp_def)

lemma select_all_concatP:
  "select_all sels current root' = concatP (map (\<lambda>sel. Selector_Select sel current root') sels)"
  by (induction sels) simp_all

lemma descend_preorder_aux:
  "Segment_Select s current root' =
     appP (select_all (selectors s) current root')
       (if descendant s
        then concatP (map (\<lambda>n. select_all (selectors s) n root')
               (concat (map preorder (members current))))
        else Inr [])"
  "descendant s \<Longrightarrow> descend s current root' =
     concatP (map (\<lambda>n. select_all (selectors s) n root')
       (concat (map preorder (members current))))"
  "descendant s \<Longrightarrow> descend_array s vs root' =
     concatP (map (\<lambda>n. select_all (selectors s) n root') (concat (map preorder vs)))"
  "descendant s \<Longrightarrow> descend_map s kvs root' =
     concatP (map (\<lambda>n. select_all (selectors s) n root') (concat (map preorder (map snd kvs))))"
proof (induction s current root' and s current root' and s vs root' and s kvs root'
    rule: Segment_Select_descend_descend_array_descend_map.induct)
  case (1 s current root')
  then show ?case by simp
next
  case (10 s v vs root')
  then show ?case
    by (simp add: concatP_append appP_assoc preorder_members [of v])
next
  case (12 s kv kvs root')
  then show ?case
    by (simp add: concatP_append appP_assoc preorder_members [of "snd kv"])
qed simp_all

text \<open>
  C3. A descendant segment applied to \<open>current\<close> gives the selector results (in
  selector order) at \<open>current\<close> followed by the results of the segment at each member
  of \<open>current\<close> in turn (array elements in order, object values in the order of the
  iteration); so the result is the concatenation, over the pre-order traversal of
  \<open>current\<close>, of the selector results at each node. A panic of a selector ends the
  evaluation at the same place on both sides.
\<close>

theorem descendant_preorder:
  "Segment_Select (Descendant sels) current root' =
     concatP (map (\<lambda>n. concatP (map (\<lambda>sel. Selector_Select sel n root') sels))
       (preorder current))
   \<and> Segment_Select (Descendant sels) current root' =
     appP (concatP (map (\<lambda>sel. Selector_Select sel current root') sels))
       (concatP (map (\<lambda>v. Segment_Select (Descendant sels) v root') (members current)))"
proof -
  have sel: "selectors (Descendant sels) = sels" and desc: "descendant (Descendant sels)"
    by (simp_all add: Descendant_def)
  have pre: "Segment_Select (Descendant sels) current root' =
      concatP (map (\<lambda>n. select_all sels n root') (preorder current))"
    using descend_preorder_aux(1) [of "Descendant sels" current root']
    by (simp add: sel desc preorder_members [of current])
  have step: "Segment_Select (Descendant sels) current root' =
      appP (select_all sels current root')
        (concatP (map (\<lambda>v. Segment_Select (Descendant sels) v root') (members current)))"
  proof (cases current)
    case (JArray xs)
    have "descend_array (Descendant sels) ys root' =
        concatP (map (\<lambda>v. Segment_Select (Descendant sels) v root') ys)" for ys
      by (induction ys) simp_all
    then show ?thesis using JArray by (simp add: sel desc)
  next
    case (JObject kvs)
    have "descend_map (Descendant sels) ys root' =
        concatP (map (\<lambda>v. Segment_Select (Descendant sels) v root') (map snd ys))" for ys
      by (induction ys) simp_all
    then show ?thesis using JObject by (simp add: sel desc)
  qed (simp_all add: sel desc)
  show ?thesis
    using pre step by (simp add: select_all_concatP)
qed

section \<open>Singular queries\<close>

lemma singular_select:
  "isSingular sel \<Longrightarrow>
     Selector_Select sel t root' = Inr [] \<or> (\<exists>v. Selector_Select sel t root' = Inr [v])"
  by (cases sel; cases t) (simp_all add: Let_def split: option.splits)

lemma singular_select_root:
  "isSingular sel \<Longrightarrow> Selector_Select sel t root' = Selector_Select sel t JNull"
  by (cases sel) simp_all

lemma select_nodes_single: "select_nodes seg [n] root' = Segment_Select seg n root'"
  by simp

lemma Segment_Select_Child: "Segment_Select (Child [sel]) t root' = Selector_Select sel t root'"
  by (simp add: Child_def)

lemma query_fold_Nil: "query_fold segs [] root' = Inr []"
  by (induction segs) simp_all

lemma singular_walk_query:
  "\<forall>sel \<in> set sels. isSingular sel \<Longrightarrow>
     query_fold (map (\<lambda>sel. Child [sel]) sels) [t] root' =
       bindP (singular_walk sels t) newNodesTypeFrom"
proof (induction sels arbitrary: t)
  case Nil
  then show ?case by (simp add: newNodesTypeFrom_def)
next
  case (Cons sel sels)
  then have s: "isSingular sel" and IH: "\<And>t. query_fold (map (\<lambda>sel. Child [sel]) sels) [t] root' =
       bindP (singular_walk sels t) newNodesTypeFrom"
    by simp_all
  from singular_select [OF s, of t JNull]
  show ?case
  proof
    assume "Selector_Select sel t JNull = Inr []"
    then show ?thesis
      by (simp add: Segment_Select_Child singular_select_root [OF s, of t root'] query_fold_Nil
          newNodesTypeFrom_def del: Segment_Select.simps)
  next
    assume "\<exists>v. Selector_Select sel t JNull = Inr [v]"
    then obtain v where "Selector_Select sel t JNull = Inr [v]" ..
    then show ?thesis
      by (simp add: Segment_Select_Child singular_select_root [OF s, of t root'] IH
          del: Segment_Select.simps)
  qed
qed

lemma singular_walk_result:
  "\<forall>sel \<in> set sels. isSingular sel \<Longrightarrow>
     singular_walk sels t = Inr None \<or> (\<exists>v. singular_walk sels t = Inr (Some (ValueType v)))"
proof (induction sels arbitrary: t)
  case Nil
  then show ?case by simp
next
  case (Cons sel sels)
  then have s: "isSingular sel" and rest: "\<forall>sel \<in> set sels. isSingular sel"
    by simp_all
  from singular_select [OF s, of t JNull] show ?case
  proof
    assume "Selector_Select sel t JNull = Inr []"
    then show ?thesis by simp
  next
    assume "\<exists>v. Selector_Select sel t JNull = Inr [v]"
    then obtain v where "Selector_Select sel t JNull = Inr [v]" ..
    then show ?thesis using Cons.IH [OF rest, of v] by simp
  qed
qed

lemma singular_walk_nothing:
  "(singular_walk sels t = Inr None) =
     (\<exists>k<length sels. \<exists>v. singular_walk (take k sels) t = Inr (Some (ValueType v))
        \<and> Selector_Select (sels ! k) v JNull = Inr [])"
proof (induction sels arbitrary: t)
  case Nil
  then show ?case by simp
next
  case (Cons sel sels)
  show ?case
  proof (cases "Selector_Select sel t JNull")
    case (Inl e)
    have "\<not> (\<exists>k<length (sel # sels). \<exists>v.
              singular_walk (take k (sel # sels)) t = Inr (Some (ValueType v))
              \<and> Selector_Select ((sel # sels) ! k) v JNull = Inr [])"
    proof
      assume "\<exists>k<length (sel # sels). \<exists>v.
              singular_walk (take k (sel # sels)) t = Inr (Some (ValueType v))
              \<and> Selector_Select ((sel # sels) ! k) v JNull = Inr []"
      then obtain k v where k: "k < length (sel # sels)"
        and w: "singular_walk (take k (sel # sels)) t = Inr (Some (ValueType v))"
        and z: "Selector_Select ((sel # sels) ! k) v JNull = Inr []" by blast
      show False
      proof (cases k)
        case 0
        with w z Inl show False by simp
      next
        case (Suc k')
        with w Inl show False by simp
      qed
    qed
    with Inl show ?thesis by simp
  next
    case (Inr res)
    show ?thesis
    proof (cases res)
      case Nil
      have "singular_walk (take 0 (sel # sels)) t = Inr (Some (ValueType t))
          \<and> Selector_Select ((sel # sels) ! 0) t JNull = Inr []"
        using Inr Nil by simp
      then have "\<exists>k<length (sel # sels). \<exists>v.
              singular_walk (take k (sel # sels)) t = Inr (Some (ValueType v))
              \<and> Selector_Select ((sel # sels) ! k) v JNull = Inr []"
        by (intro exI [of _ 0] exI [of _ t]) simp
      with Inr Nil show ?thesis by simp
    next
      case (Cons r rest)
      have walk: "singular_walk (sel # sels) t = singular_walk sels r"
        using Inr Cons by simp
      have "(\<exists>k<length (sel # sels). \<exists>v.
              singular_walk (take k (sel # sels)) t = Inr (Some (ValueType v))
              \<and> Selector_Select ((sel # sels) ! k) v JNull = Inr [])
          = (\<exists>k<length sels. \<exists>v. singular_walk (take k sels) r = Inr (Some (ValueType v))
              \<and> Selector_Select (sels ! k) v JNull = Inr [])"
        (is "?L = ?R")
      proof
        assume ?L
        then obtain k v where k: "k < length (sel # sels)"
          and w: "singular_walk (take k (sel # sels)) t = Inr (Some (ValueType v))"
          and z: "Selector_Select ((sel # sels) ! k) v JNull = Inr []" by blast
        show ?R
        proof (cases k)
          case 0
          with w z Inr Cons show ?thesis by simp
        next
          case (Suc k')
          with k w z Inr Cons have "k' < length sels"
            "singular_walk (take k' sels) r = Inr (Some (ValueType v))"
            "Selector_Select (sels ! k') v JNull = Inr []"
            by simp_all
          then show ?thesis by blast
        qed
      next
        assume ?R
        then obtain k v where k: "k < length sels"
          and w: "singular_walk (take k sels) r = Inr (Some (ValueType v))"
          and z: "Selector_Select (sels ! k) v JNull = Inr []" by blast
        then have "Suc k < length (sel # sels)"
          "singular_walk (take (Suc k) (sel # sels)) t = Inr (Some (ValueType v))"
          "Selector_Select ((sel # sels) ! Suc k) v JNull = Inr []"
          using Inr Cons by simp_all
        then show ?L by blast
      qed
      with walk Cons.IH [of r] show ?thesis by simp
    qed
  qed
qed

text \<open>
  C8. For a singular query (a chain of Name and Index selectors): the result is
  nothing or one value; it is nothing iff some selector of the chain yields no node on
  the value that the selectors before it reach; the query it abbreviates selects
  exactly that value, or no node when the result is nothing; so it never selects more
  than one node.
\<close>

theorem singular_query_result:
  assumes "\<forall>sel \<in> set (sq_selectors sq). isSingular sel"
  shows "(singularQuery_execute sq current root' = Inr None
            \<or> (\<exists>v. singularQuery_execute sq current root' = Inr (Some (ValueType v))))
     \<and> (singularQuery_execute sq current root' = Inr None) =
         (\<exists>k<length (sq_selectors sq). \<exists>v.
            singularQuery_execute (sq\<lparr>sq_selectors := take k (sq_selectors sq)\<rparr>) current root'
              = Inr (Some (ValueType v))
            \<and> Selector_Select (sq_selectors sq ! k) v JNull = Inr [])
     \<and> Query_Select (as_query sq) current root' =
         bindP (singularQuery_execute sq current root') newNodesTypeFrom
     \<and> (\<exists>ns. Query_Select (as_query sq) current root' = Inr ns \<and> length ns \<le> 1)"
proof -
  define t where "t = (if relative sq then current else root')"
  have ex: "singularQuery_execute sq current root' = singular_walk (sq_selectors sq) t"
    by (simp add: singularQuery_execute_def t_def)
  have ex_take: "singularQuery_execute (sq\<lparr>sq_selectors := take k (sq_selectors sq)\<rparr>)
      current root' = singular_walk (take k (sq_selectors sq)) t" for k
    by (simp add: singularQuery_execute_def t_def)
  have q: "Query_Select (as_query sq) current root' =
      query_fold (map (\<lambda>sel. Child [sel]) (sq_selectors sq)) [t] root'"
    by (cases "relative sq") (simp_all add: Query_Select_def as_query_def t_def)
  have a: "singular_walk (sq_selectors sq) t = Inr None
      \<or> (\<exists>v. singular_walk (sq_selectors sq) t = Inr (Some (ValueType v)))"
    by (rule singular_walk_result [OF assms])
  have b: "Query_Select (as_query sq) current root' =
      bindP (singular_walk (sq_selectors sq) t) newNodesTypeFrom"
    using singular_walk_query [OF assms, of t root'] by (simp add: q)
  have c: "\<exists>ns. Query_Select (as_query sq) current root' = Inr ns \<and> length ns \<le> 1"
    using a b by (auto simp: newNodesTypeFrom_def)
  show ?thesis
    using a b c singular_walk_nothing [of "sq_selectors sq" t]
    by (simp only: ex ex_take)
qed

theorem singular_query_result_witness:
  "singularQuery_execute \<lparr>relative = True, sq_selectors = [Name ''a'', Index (- 1)]\<rparr>
      (JObject [(''a'', JArray [JInt 7, JInt 8])]) JNull = Inr (Some (ValueType (JInt 8)))
   \<and> Query_Select (as_query \<lparr>relative = True, sq_selectors = [Name ''a'', Index (- 1)]\<rparr>)
      (JObject [(''a'', JArray [JInt 7, JInt 8])]) JNull = Inr [JInt 8]
   \<and> singularQuery_execute \<lparr>relative = True, sq_selectors = [Name ''b'', Index 0]\<rparr>
      (JObject [(''a'', JArray [JInt 7, JInt 8])]) JNull = Inr None"
  using singular_query_result [of "\<lparr>relative = True, sq_selectors = [Name ''a'', Index (- 1)]\<rparr>"
      "JObject [(''a'', JArray [JInt 7, JInt 8])]" JNull]
  by (simp add: singularQuery_execute_def newNodesTypeFrom_def)

section \<open>Truthiness of a function call\<close>

text \<open>
  C9. The claim as amended: a bare function call is truthy iff its result is a
  non-empty node list, or logical true, or a value other than null, false and the
  number zero; every other value, an empty string, an empty array and an empty object
  among them, is truthy. It is falsy iff the result is nothing, an empty node list,
  logical false, or one of the values null, false and zero.
\<close>

theorem function_truthiness:
  "(FunctionExpr_testFilter fe current root' = Inr True) =
     ((\<exists>ns. FunctionExpr_execute fe current root' = Inr (Some (NodesType ns)) \<and> ns \<noteq> [])
      \<or> FunctionExpr_execute fe current root' = Inr (Some (LogicalType LogicalTrue))
      \<or> (\<exists>v. FunctionExpr_execute fe current root' = Inr (Some (ValueType v))
            \<and> v \<noteq> JNull \<and> v \<noteq> JBool False \<and> v \<noteq> JInt 0 \<and> v \<noteq> JFloat 0))
   \<and> (FunctionExpr_testFilter fe current root' = Inr False) =
     (FunctionExpr_execute fe current root' = Inr None
      \<or> FunctionExpr_execute fe current root' = Inr (Some (NodesType []))
      \<or> FunctionExpr_execute fe current root' = Inr (Some (LogicalType LogicalFalse))
      \<or> FunctionExpr_execute fe current root' = Inr (Some (ValueType JNull))
      \<or> FunctionExpr_execute fe current root' = Inr (Some (ValueType (JBool False)))
      \<or> FunctionExpr_execute fe current root' = Inr (Some (ValueType (JInt 0)))
      \<or> FunctionExpr_execute fe current root' = Inr (Some (ValueType (JFloat 0))))"
proof (cases "FunctionExpr_execute fe current root'")
  case (Inl e)
  then show ?thesis by (simp add: FunctionExpr_testFilter_def)
next
  case (Inr res)
  show ?thesis
  proof (cases res)
    case None
    with Inr show ?thesis by (simp add: FunctionExpr_testFilter_def)
  next
    case (Some jv)
    show ?thesis
    proof (cases jv)
      case (NodesType ns)
      with Inr Some show ?thesis by (auto simp: FunctionExpr_testFilter_def)
    next
      case (LogicalType l)
      with Inr Some show ?thesis by (cases l) (simp_all add: FunctionExpr_testFilter_def Bool_def)
    next
      case (ValueType v)
      with Inr Some show ?thesis
        by (cases v) (auto simp: FunctionExpr_testFilter_def ValueType_testFilter_def)
    qed
  qed
qed

text \<open>
  The claim as stated makes a value holding an empty array or an empty object falsy;
  \<^verbatim>\<open>value(@)\<close> on an empty array and on an empty object is truthy.
\<close>

theorem value_empty_array_truthy:
  "FunctionExpr_execute
      \<lparr>args = [singularQuery_arg \<lparr>relative = True, sq_selectors = []\<rparr>], fn = value_fn\<rparr>
      (JArray []) JNull = Inr (Some (ValueType (JArray [])))
   \<and> FunctionExpr_testFilter
      \<lparr>args = [singularQuery_arg \<lparr>relative = True, sq_selectors = []\<rparr>], fn = value_fn\<rparr>
      (JArray []) JNull = Inr True
   \<and> FunctionExpr_testFilter
      \<lparr>args = [singularQuery_arg \<lparr>relative = True, sq_selectors = []\<rparr>], fn = value_fn\<rparr>
      (JObject []) JNull = Inr True"
  by (simp add: FunctionExpr_testFilter_def FunctionExpr_execute_def singularQuery_arg_def
      singularQuery_execute_def value_fn_def valueFunc_def index_at_def newNodesTypeFrom_def
      ValueType_testFilter_def)

theorem function_truthiness_witness:
  "FunctionExpr_testFilter
      \<lparr>args = [singularQuery_arg \<lparr>relative = True, sq_selectors = []\<rparr>], fn = value_fn\<rparr>
      (JInt 0) JNull = Inr False
   \<and> FunctionExpr_testFilter
      \<lparr>args = [singularQuery_arg \<lparr>relative = True, sq_selectors = []\<rparr>], fn = value_fn\<rparr>
      (JString []) JNull = Inr True"
  using function_truthiness [of
      "\<lparr>args = [singularQuery_arg \<lparr>relative = True, sq_selectors = []\<rparr>], fn = value_fn\<rparr>"
      "JInt 0" JNull]
    function_truthiness [of
      "\<lparr>args = [singularQuery_arg \<lparr>relative = True, sq_selectors = []\<rparr>], fn = value_fn\<rparr>"
      "JString []" JNull]
  by (simp add: FunctionExpr_execute_def singularQuery_arg_def
      singularQuery_execute_def value_fn_def valueFunc_def index_at_def newNodesTypeFrom_def)

section \<open>Empty logical expressions\<close>

lemma filter_loop_empty_or: "filter_loop [] vs root' = Inr []"
  by (induction vs) simp_all

text \<open>
  C10. A \<^verbatim>\<open>LogicalAndExpr\<close> with no subexpression evaluates to true and a
  \<^verbatim>\<open>LogicalOrExpr\<close> with none to false, for every current node and root; a filter built
  from the empty \<^verbatim>\<open>LogicalOrExpr\<close> selects nothing.
\<close>

theorem empty_logical_exprs:
  "LogicalAndExpr_testFilter [] current root' = Inr True
   \<and> LogicalOrExpr_testFilter [] current root' = Inr False
   \<and> Selector_Select (Filter []) current root' = Inr []"
  by (cases current) (simp_all add: filter_loop_empty_or)

section \<open>Integers of index and slice selectors\<close>

lemma digit_char_props:
  "0 \<le> d \<Longrightarrow> d < 10 \<Longrightarrow> is_digit (digit_char d) \<and> digit_val (digit_char d) = d
     \<and> digit_char d \<noteq> CHR ''-'' \<and> digit_char d \<noteq> CHR ''+''"
proof -
  assume "0 \<le> d" "d < 10"
  then have "d = 0 \<or> d = 1 \<or> d = 2 \<or> d = 3 \<or> d = 4 \<or> d = 5 \<or> d = 6 \<or> d = 7 \<or> d = 8 \<or> d = 9"
    by arith
  then show ?thesis
    by (elim disjE) (simp_all add: digit_char_def is_digit_def digit_val_def)
qed

lemma digits_val_snoc: "digits_val (ds @ [c]) = digits_val ds * 10 + digit_val c"
  by (simp add: digits_val_def)

lemma show_nat_props:
  "0 \<le> n \<Longrightarrow> show_nat n \<noteq> [] \<and> list_all is_digit (show_nat n)
     \<and> digits_val (show_nat n) = n \<and> is_digit (hd (show_nat n))"
proof (induction n rule: show_nat.induct)
  case (1 n)
  show ?case
  proof (cases "n < 10")
    case True
    with 1(2) digit_char_props [of n] show ?thesis
      by (subst (1 2 3 4) show_nat.simps) (simp add: digits_val_def)
  next
    case False
    then have d: "0 \<le> n div 10" "0 \<le> n mod 10" "n mod 10 < 10" using 1(2) by simp_all
    from 1(1) [OF False d(1)] have IH: "show_nat (n div 10) \<noteq> []"
      "list_all is_digit (show_nat (n div 10))" "digits_val (show_nat (n div 10)) = n div 10"
      "is_digit (hd (show_nat (n div 10)))" by simp_all
    have u: "show_nat n = show_nat (n div 10) @ [digit_char (n mod 10)]"
      using False by (subst show_nat.simps) simp
    show ?thesis
      using IH digit_char_props [OF d(2,3)]
      by (simp add: u digits_val_snoc)
  qed
qed

lemma is_digit_not_sign: "is_digit c \<Longrightarrow> c \<noteq> CHR ''-'' \<and> c \<noteq> CHR ''+''"
  by (auto simp: is_digit_def)

lemma ParseInt_show_int:
  "ParseInt (show_int v) = (if - (2 ^ 63) \<le> v \<and> v < 2 ^ 63 then Inr v else Inl ErrRange)"
proof (cases "v < 0")
  case True
  then have "0 \<le> - v" by simp
  from show_nat_props [OF this] True show ?thesis
    by (auto simp: ParseInt_def show_int_def Let_def)
next
  case False
  then have "0 \<le> v" by simp
  from show_nat_props [OF this] have p: "show_nat v \<noteq> []" "list_all is_digit (show_nat v)"
    "digits_val (show_nat v) = v" "is_digit (hd (show_nat v))" by simp_all
  from is_digit_not_sign [OF p(4)] p False show ?thesis
    by (auto simp: ParseInt_def show_int_def Let_def)
qed

lemma show_int_not_minus_zero: "show_int v \<noteq> ''-0''"
proof (cases "v < 0")
  case True
  then have n: "0 \<le> - v" by simp
  show ?thesis
  proof
    assume "show_int v = ''-0''"
    then have "show_nat (- v) = ''0''" using True by (simp add: show_int_def)
    then have "digits_val (show_nat (- v)) = 0" by (simp add: digits_val_def digit_val_def)
    with show_nat_props [OF n] True show False by simp
  qed
next
  case False
  then have "0 \<le> v" by simp
  from show_nat_props [OF this] have "show_nat v \<noteq> []" "is_digit (hd (show_nat v))" by simp_all
  with is_digit_not_sign [of "hd (show_nat v)"] False show ?thesis
    by (auto simp: show_int_def)
qed

text \<open>
  C7. An integer token is the text \<^verbatim>\<open>-0\<close> or the decimal form of an integer \<open>v\<close>.
  \<^verbatim>\<open>parsePathInt\<close> rejects \<^verbatim>\<open>-0\<close> with the message "invalid integer path value" and the
  1-based position of the token; it returns \<open>v\<close> when \<open>v\<close> lies in
  \<open>[-(2^53 - 1), 2^53 - 1]\<close> and fails with "value out of range" and the 1-based
  position otherwise.
\<close>

theorem parsePathInt_range:
  "parsePathInt \<lparr>tok = Integer, val = ''-0'', pos = p\<rparr> =
     Inl (''jsonpath: invalid integer path value '' @ Quote ''-0'' @ '' at position ''
          @ show_int (p + 1))
   \<and> parsePathInt \<lparr>tok = Integer, val = show_int v, pos = p\<rparr> =
     (if - (2 ^ 53 - 1) \<le> v \<and> v \<le> 2 ^ 53 - 1 then Inr v
      else Inl (''jsonpath: cannot parse '' @ Quote (show_int v)
          @ '', value out of range at position '' @ show_int (p + 1)))"
proof -
  have a: "parsePathInt \<lparr>tok = Integer, val = ''-0'', pos = p\<rparr> =
     Inl (''jsonpath: invalid integer path value '' @ Quote ''-0'' @ '' at position ''
          @ show_int (p + 1))"
    by (simp add: parsePathInt_def makeError_def)
  have b: "parsePathInt \<lparr>tok = Integer, val = show_int v, pos = p\<rparr> =
     (if - (2 ^ 53 - 1) \<le> v \<and> v \<le> 2 ^ 53 - 1 then Inr v
      else Inl (''jsonpath: cannot parse '' @ Quote (show_int v)
          @ '', value out of range at position '' @ show_int (p + 1)))"
    using show_int_not_minus_zero [of v]
    by (simp add: parsePathInt_def ParseInt_show_int makeNumErr_def makeError_def
        NumError_Error_def minVal_def maxVal_def)
  show ?thesis using a b by (rule conjI)
qed

lemma parsePathInt_minus_zero_example:
  "parsePathInt \<lparr>tok = Integer, val = ''-0'', pos = 2\<rparr> =
     Inl (''jsonpath: invalid integer path value '' @ [CHR 0x22] @ ''-0'' @ [CHR 0x22]
          @ '' at position 3'')"
  by (simp add: parsePathInt_def makeError_def Quote_def quote_char_def show_int_def
      show_nat.simps digit_char_def)

section \<open>The function-result discipline of the parser\<close>

lemma bindE_Inl [simp]: "bindE (Inl e) f = Inl e"
  by (simp add: bindE_def)

lemma bindE_Inr [simp]: "bindE (Inr x) f = f x"
  by (simp add: bindE_def)

subsection \<open>Every accepted path is well-typed\<close>

lemma callees_okD:
  "callees_ok C \<Longrightarrow> c_parseQuery C rt lx = Inr (q, lx') \<Longrightarrow> ok_PathQuery q"
  "callees_ok C \<Longrightarrow> c_parseLogicalOrExpr C lx = Inr (lo, lx') \<Longrightarrow> ok_LogicalOr lo"
  "callees_ok C \<Longrightarrow> c_parseFunction C t lx = Inr (f, lx') \<Longrightarrow> ok_FunctionExpr f"
  unfolding callees_ok_def by blast+

lemma bindE_InrE:
  assumes "bindE m f = Inr y"
  obtains x where "m = Inr x" "f x = Inr y"
  using assms by (cases m) simp_all

lemma ok_Expression: "ok_PathQuery q \<Longrightarrow> ok_FunctionExprArg (Expression q)"
  by (auto simp: Expression_def split: option.splits)

lemma args_next_ok:
  assumes k: "\<And>res' lx' as lx''. list_all ok_FunctionExprArg res' \<Longrightarrow>
             k res' lx' = Inr (as, lx'') \<Longrightarrow> list_all ok_FunctionExprArg as"
    and res: "list_all ok_FunctionExprArg res"
    and eq: "args_next E k res lx = Inr (as, lx')"
  shows "list_all ok_FunctionExprArg as"
  using eq res k [OF res]
  by (auto simp: args_next_def split: prod.splits if_splits)

lemma parseFunctionArgs_loop_ok:
  "callees_ok C \<Longrightarrow> list_all ok_FunctionExprArg res \<Longrightarrow>
     parseFunctionArgs_loop n E C res lx = Inr (as, lx') \<Longrightarrow> list_all ok_FunctionExprArg as"
proof (induction n arbitrary: res lx as lx')
  case 0
  then show ?case by simp
next
  case (Suc n)
  note C = Suc.prems(1) and res = Suc.prems(2) and eq = Suc.prems(3)
  have k: "list_all ok_FunctionExprArg res' \<Longrightarrow>
      parseFunctionArgs_loop n E C res' lx1 = Inr (as', lx2) \<Longrightarrow>
      list_all ok_FunctionExprArg as'" for res' lx1 as' lx2
    using Suc.IH [OF C] by blast
  obtain t lx1 where sc: "scan lx = (t, lx1)" by (cases "scan lx")
  consider (lit) "is_literal_tok (tok t)"
    | (query) "\<not> is_literal_tok (tok t)" "tok t = Rune CHR ''@'' \<or> tok t = Rune CHR ''$''"
    | (ident) "\<not> is_literal_tok (tok t)" "tok t = Identifier"
    | (blank) "\<not> is_literal_tok (tok t)" "tok t = BlankSpace"
    | (close) "\<not> is_literal_tok (tok t)" "tok t = Rune CHR '')''"
    | (logical) "\<not> is_literal_tok (tok t)" "tok t = Rune CHR ''!'' \<or> tok t = Rune CHR ''(''"
    | (other) "\<not> is_literal_tok (tok t)" "\<not> (tok t = Rune CHR ''@'' \<or> tok t = Rune CHR ''$'')"
        "tok t \<noteq> Identifier" "tok t \<noteq> BlankSpace" "tok t \<noteq> Rune CHR '')''"
        "\<not> (tok t = Rune CHR ''!'' \<or> tok t = Rune CHR ''('')"
    by blast
  then show ?case
  proof cases
    case lit
    with eq sc obtain v where
      "args_next E (parseFunctionArgs_loop n E C) (res @ [ArgLiteral v]) lx1 = Inr (as, lx')"
      by (auto elim!: bindE_InrE)
    then show ?thesis using res k by (auto elim!: args_next_ok [rotated 2])
  next
    case query
    with eq sc obtain q lx2 where a: "parseFilterQuery C t lx1 = Inr (q, lx2)"
      and b: "args_next E (parseFunctionArgs_loop n E C) (res @ [Expression q]) lx2 = Inr (as, lx')"
      by (auto elim!: bindE_InrE)
    from a C have "ok_PathQuery q" by (auto simp: parseFilterQuery_def dest: callees_okD)
    then have "list_all ok_FunctionExprArg (res @ [Expression q])"
      using res by (simp add: ok_Expression)
    from args_next_ok [OF k this b] show ?thesis .
  next
    case ident
    with eq sc obtain lx2 f lx3 where a: "c_parseFunction C t lx2 = Inr (f, lx3)"
      and b: "args_next E (parseFunctionArgs_loop n E C) (res @ [ArgFunction f]) lx3 = Inr (as, lx')"
      by (auto simp: is_literal_tok_def elim!: bindE_InrE split: prod.splits if_splits)
    from a C have "ok_FunctionExpr f" by (auto dest: callees_okD)
    then have "list_all ok_FunctionExprArg (res @ [ArgFunction f])" using res by simp
    from args_next_ok [OF k this b] show ?thesis .
  next
    case blank
    with eq sc have "parseFunctionArgs_loop n E C res lx1 = Inr (as, lx')"
      by (auto simp: is_literal_tok_def)
    from k [OF res this] show ?thesis .
  next
    case close
    with eq sc have "as = res" by (auto simp: is_literal_tok_def)
    with res show ?thesis by simp
  next
    case logical
    with eq sc obtain ors lx2 where a: "c_parseLogicalOrExpr C lx1 = Inr (ors, lx2)"
      and b: "args_next E (parseFunctionArgs_loop n E C) (res @ [ArgLogicalOr ors]) lx2 = Inr (as, lx')"
      by (auto simp: is_literal_tok_def elim!: bindE_InrE)
    from a C have "ok_LogicalOr ors" by (auto dest: callees_okD)
    then have "list_all ok_FunctionExprArg (res @ [ArgLogicalOr ors])" using res by simp
    from args_next_ok [OF k this b] show ?thesis .
  next
    case other
    with eq sc have "args_next E (parseFunctionArgs_loop n E C) res lx1 = Inr (as, lx')"
      by simp
    from args_next_ok [OF k res this] show ?thesis .
  qed
qed

lemma parseFunction_ok:
  assumes C: "callees_ok C" and eq: "parseFunction E C lf t lx = Inr (f, lx')"
  shows "ok_FunctionExpr f"
proof -
  obtain paren lx1 where sc: "scan lx = (paren, lx1)" by (cases "scan lx")
  from eq sc obtain as lx2 where a: "parseFunctionArgs_loop lf E C [] lx1 = Inr (as, lx2)"
    and b: "(case NewFunctionExpr (val t) as of
               Inl (unregistered, err) \<Rightarrow>
                 if unregistered then Inl (makeError t err) else Inl (makeError paren err)
             | Inr fe \<Rightarrow> Inr (fe, lx2)) = Inr (f, lx')"
    by (auto simp: parseFunction_def parseFunctionArgs_def elim!: bindE_InrE)
  from parseFunctionArgs_loop_ok [OF C _ a] have "list_all ok_FunctionExprArg as" by simp
  with b show ?thesis
    by (auto simp: NewFunctionExpr_def split: sum.splits option.splits prod.splits if_splits)
qed

lemma parseComparableVal_ok:
  assumes C: "callees_ok C" and eq: "parseComparableVal E C lf t lx = Inr (v, lx')"
  shows "ok_CompVal v"
proof -
  consider (lit) "is_literal_tok (tok t)"
    | (query) "\<not> is_literal_tok (tok t)" "tok t = Rune CHR ''@'' \<or> tok t = Rune CHR ''$''"
    | (ident) "\<not> is_literal_tok (tok t)" "tok t = Identifier"
    | (other) "\<not> is_literal_tok (tok t)" "\<not> (tok t = Rune CHR ''@'' \<or> tok t = Rune CHR ''$'')"
        "tok t \<noteq> Identifier"
    by blast
  then show ?thesis
  proof cases
    case lit
    with eq show ?thesis by (auto simp: parseComparableVal_def elim!: bindE_InrE)
  next
    case query
    with eq show ?thesis by (auto simp: parseComparableVal_def elim!: bindE_InrE)
  next
    case ident
    with eq obtain f where a: "parseFunction E C lf t lx = Inr (f, lx')"
      and b: "ResultType_of f \<noteq> FuncLogical" and v: "v = CompFunction f"
      by (auto simp: parseComparableVal_def is_literal_tok_def elim!: bindE_InrE
          split: if_splits)
    from parseFunction_ok [OF C a] b v show ?thesis by simp
  next
    case other
    with eq show ?thesis by (simp add: parseComparableVal_def)
  qed
qed

lemma parseComparableExpr_ok:
  assumes C: "callees_ok C" and left: "ok_CompVal left"
    and eq: "parseComparableExpr E C lf left lx = Inr (e, lx')"
  shows "ok_BasicExpr e"
proof -
  from eq obtain op t lx4 right where
    a: "parseComparableVal E C lf t lx4 = Inr (right, lx')"
    and e: "e = spec_ComparisonExpr left op right"
    by (auto simp: parseComparableExpr_def elim!: bindE_InrE split: prod.splits)
  from parseComparableVal_ok [OF C a] left e show ?thesis by simp
qed

lemma parseFunctionFilterExpr_ok:
  assumes C: "callees_ok C" and eq: "parseFunctionFilterExpr E C lf t lx = Inr (e, lx')"
  shows "ok_BasicExpr e"
proof -
  from eq obtain f lx1 where a: "parseFunction E C lf t lx = Inr (f, lx1)"
    and b: "(if ResultType_of f = FuncLogical then Inr (spec_FuncExpr f, lx1)
       else
         let (c, lx2) = skipBlankSpace lx1
         in if is_comp_rune c then parseComparableExpr E C lf (CompFunction f) lx2
            else Inl (makeError (fst (scan lx2)) ''missing comparison to function result''))
       = Inr (e, lx')"
    by (auto simp: parseFunctionFilterExpr_def elim!: bindE_InrE)
  note f = parseFunction_ok [OF C a]
  show ?thesis
  proof (cases "ResultType_of f = FuncLogical")
    case True
    with b f show ?thesis by auto
  next
    case False
    with b obtain lx2 where "parseComparableExpr E C lf (CompFunction f) lx2 = Inr (e, lx')"
      by (auto split: prod.splits if_splits)
    from parseComparableExpr_ok [OF C _ this] False f show ?thesis by simp
  qed
qed

lemma parseInnerParenExpr_ok:
  "callees_ok C \<Longrightarrow> parseInnerParenExpr E C lx = Inr (lo, lx') \<Longrightarrow> ok_LogicalOr lo"
  by (auto simp: parseInnerParenExpr_def elim!: bindE_InrE dest: callees_okD
      split: prod.splits if_splits)

lemma parseNotExistsExpr_ok:
  "callees_ok C \<Longrightarrow> parseNotExistsExpr C t lx = Inr (e, lx') \<Longrightarrow> ok_BasicExpr e"
  by (auto simp: parseNotExistsExpr_def parseFilterQuery_def elim!: bindE_InrE dest: callees_okD)

lemma parseParenExpr_ok:
  "callees_ok C \<Longrightarrow> parseParenExpr E C lx = Inr (e, lx') \<Longrightarrow> ok_BasicExpr e"
  by (auto simp: parseParenExpr_def elim!: bindE_InrE dest: parseInnerParenExpr_ok)

lemma parseNotParenExpr_ok:
  "callees_ok C \<Longrightarrow> parseNotParenExpr E C lx = Inr (e, lx') \<Longrightarrow> ok_BasicExpr e"
  by (auto simp: parseNotParenExpr_def elim!: bindE_InrE dest: parseInnerParenExpr_ok)

lemma parseBasicExpr_ok:
  assumes C: "callees_ok C" and eq: "parseBasicExpr E C lf lx = Inr (e, lx')"
  shows "ok_BasicExpr e"
proof -
  obtain c0 lx0 where s0: "skipBlankSpace lx = (c0, lx0)" by (cases "skipBlankSpace lx")
  obtain t lx1 where sc: "scan lx0 = (t, lx1)" by (cases "scan lx0")
  consider (not) "tok t = Rune CHR ''!''"
    | (paren) "tok t = Rune CHR ''(''"
    | (lit) "is_literal_tok (tok t)"
    | (ident) "tok t = Identifier"
    | (query) "tok t = Rune CHR ''@'' \<or> tok t = Rune CHR ''$''"
    | (other) "tok t \<noteq> Rune CHR ''!''" "tok t \<noteq> Rune CHR ''(''" "\<not> is_literal_tok (tok t)"
        "tok t \<noteq> Identifier" "\<not> (tok t = Rune CHR ''@'' \<or> tok t = Rune CHR ''$'')"
    by blast
  then show ?thesis
  proof cases
    case not
    obtain c lx2 where s2: "skipBlankSpace lx1 = (c, lx2)" by (cases "skipBlankSpace lx1")
    show ?thesis
    proof (cases "c = Some CHR ''(''")
      case True
      with eq s0 sc not s2 have "parseNotParenExpr E C (snd (scan lx2)) = Inr (e, lx')"
        by (simp add: parseBasicExpr_def)
      from parseNotParenExpr_ok [OF C this] show ?thesis .
    next
      case False
      obtain next' lx3 where s3: "scan lx2 = (next', lx3)" by (cases "scan lx2")
      show ?thesis
      proof (cases "tok next' = Identifier")
        case True
        with eq s0 sc not s2 s3 \<open>c \<noteq> Some CHR ''(''\<close> obtain f where
          a: "parseFunction E C lf next' lx3 = Inr (f, lx')" and e: "e = spec_NotFuncExpr f"
          by (auto simp: parseBasicExpr_def elim!: bindE_InrE)
        from parseFunction_ok [OF C a] e show ?thesis by simp
      next
        case False
        with eq s0 sc not s2 s3 \<open>c \<noteq> Some CHR ''(''\<close>
        have "parseNotExistsExpr C next' lx3 = Inr (e, lx')"
          by (simp add: parseBasicExpr_def)
        from parseNotExistsExpr_ok [OF C this] show ?thesis .
      qed
    qed
  next
    case paren
    with eq s0 sc have "parseParenExpr E C lx1 = Inr (e, lx')"
      by (simp add: parseBasicExpr_def)
    from parseParenExpr_ok [OF C this] show ?thesis .
  next
    case lit
    then have "tok t \<noteq> Rune CHR ''!''" "tok t \<noteq> Rune CHR ''(''"
      by (auto simp: is_literal_tok_def)
    with eq s0 sc lit obtain left where
      "parseComparableExpr E C lf (CompLiteral left) lx1 = Inr (e, lx')"
      by (auto simp: parseBasicExpr_def elim!: bindE_InrE)
    from parseComparableExpr_ok [OF C _ this] show ?thesis by simp
  next
    case ident
    with eq s0 sc have "parseFunctionFilterExpr E C lf t lx1 = Inr (e, lx')"
      by (auto simp: parseBasicExpr_def is_literal_tok_def split: if_splits)
    from parseFunctionFilterExpr_ok [OF C this] show ?thesis .
  next
    case query
    then have n: "tok t \<noteq> Rune CHR ''!''" "tok t \<noteq> Rune CHR ''(''" "\<not> is_literal_tok (tok t)"
      "tok t \<noteq> Identifier"
      by (auto simp: is_literal_tok_def)
    with eq s0 sc query obtain q lx2 where a: "parseFilterQuery C t lx1 = Inr (q, lx2)"
      and b: "(case Singular q of
               Some (rt, sels) \<Rightarrow>
                 (let (c, lx3) = skipBlankSpace lx2
                  in if is_comp_rune c
                     then parseComparableExpr E C lf (CompSingularQuery rt sels) lx3
                     else Inr (spec_ExistExpr q, lx3))
             | None \<Rightarrow> Inr (spec_ExistExpr q, lx2)) = Inr (e, lx')"
      by (auto simp: parseBasicExpr_def elim!: bindE_InrE)
    from a C have q: "ok_PathQuery q" by (auto simp: parseFilterQuery_def dest: callees_okD)
    show ?thesis
    proof (cases "Singular q")
      case None
      with b q show ?thesis by auto
    next
      case (Some p)
      obtain rt sels where p: "p = (rt, sels)" by (cases p)
      obtain c lx3 where s3: "skipBlankSpace lx2 = (c, lx3)" by (cases "skipBlankSpace lx2")
      show ?thesis
      proof (cases "is_comp_rune c")
        case True
        with b Some p s3 have "parseComparableExpr E C lf (CompSingularQuery rt sels) lx3 = Inr (e, lx')"
          by simp
        from parseComparableExpr_ok [OF C _ this] show ?thesis by simp
      next
        case False
        with b Some p s3 q show ?thesis by auto
      qed
    qed
  next
    case other
    with eq s0 sc show ?thesis by (simp add: parseBasicExpr_def)
  qed
qed

lemma parseLogicalAndExpr_loop_ok:
  "callees_ok C \<Longrightarrow> list_all ok_BasicExpr ors \<Longrightarrow>
     parseLogicalAndExpr_loop n E C lf ors lx = Inr (es, lx') \<Longrightarrow> list_all ok_BasicExpr es"
proof (induction n arbitrary: ors lx)
  case 0
  then show ?case by simp
next
  case (Suc n)
  show ?case
  proof (cases "lex_r lx \<noteq> Some CHR ''&''")
    case True
    with Suc.prems show ?thesis by auto
  next
    case False
    with Suc.prems(3) obtain lx2 expr lx3 where a: "parseBasicExpr E C lf lx2 = Inr (expr, lx3)"
      and b: "parseLogicalAndExpr_loop n E C lf (ors @ [expr]) lx3 = Inr (es, lx')"
      by (auto elim!: bindE_InrE split: prod.splits if_splits)
    from parseBasicExpr_ok [OF Suc.prems(1) a] Suc.prems(2)
    have "list_all ok_BasicExpr (ors @ [expr])" by simp
    from Suc.IH [OF Suc.prems(1) this b] show ?thesis .
  qed
qed

lemma parseLogicalAndExpr_ok:
  assumes C: "callees_ok C" and eq: "parseLogicalAndExpr E C lf lx = Inr (es, lx')"
  shows "list_all ok_BasicExpr es"
proof -
  from eq obtain expr lx1 where a: "parseBasicExpr E C lf lx = Inr (expr, lx1)"
    and b: "parseLogicalAndExpr_loop lf E C lf [expr] (scanBlankSpace lx1) = Inr (es, lx')"
    by (auto simp: parseLogicalAndExpr_def elim!: bindE_InrE)
  from parseBasicExpr_ok [OF C a] have "list_all ok_BasicExpr [expr]" by simp
  from parseLogicalAndExpr_loop_ok [OF C this b] show ?thesis .
qed

lemma parseLogicalOrExpr_loop_ok:
  "callees_ok C \<Longrightarrow> list_all (list_all ok_BasicExpr) ands \<Longrightarrow>
     parseLogicalOrExpr_loop n E C lf ands lx = Inr (res, lx') \<Longrightarrow>
     list_all (list_all ok_BasicExpr) res"
proof (induction n arbitrary: ands lx)
  case 0
  then show ?case by simp
next
  case (Suc n)
  show ?case
  proof (cases "lex_r lx \<noteq> Some CHR ''|''")
    case True
    with Suc.prems show ?thesis by auto
  next
    case False
    with Suc.prems(3) obtain lx2 land lx3 where a: "parseLogicalAndExpr E C lf lx2 = Inr (land, lx3)"
      and b: "parseLogicalOrExpr_loop n E C lf (ands @ [land]) lx3 = Inr (res, lx')"
      by (auto elim!: bindE_InrE split: prod.splits if_splits)
    from parseLogicalAndExpr_ok [OF Suc.prems(1) a] Suc.prems(2)
    have "list_all (list_all ok_BasicExpr) (ands @ [land])" by simp
    from Suc.IH [OF Suc.prems(1) this b] show ?thesis .
  qed
qed

lemma parseLogicalOrExpr_ok:
  assumes C: "callees_ok C" and eq: "parseLogicalOrExpr E C lf lx = Inr (lo, lx')"
  shows "ok_LogicalOr lo"
proof -
  from eq obtain land lx1 ands where a: "parseLogicalAndExpr E C lf lx = Inr (land, lx1)"
    and b: "parseLogicalOrExpr_loop lf E C lf [land] (scanBlankSpace lx1) = Inr (ands, lx')"
    and lo: "lo = spec_LogicalOr ands"
    by (auto simp: parseLogicalOrExpr_def elim!: bindE_InrE)
  from parseLogicalAndExpr_ok [OF C a] have "list_all (list_all ok_BasicExpr) [land]" by simp
  from parseLogicalOrExpr_loop_ok [OF C this b] lo show ?thesis by simp
qed

lemma parseFilter_ok:
  "callees_ok C \<Longrightarrow> parseFilter E C lf lx = Inr (sel, lx') \<Longrightarrow> ok_Selector sel"
  by (auto simp: parseFilter_def elim!: bindE_InrE dest: parseLogicalOrExpr_ok)

lemma parseSlice_loop_ok:
  "parseSlice_loop n E i as t lx = Inr (sel, lx') \<Longrightarrow> ok_Selector sel"
proof (induction n arbitrary: i as t lx)
  case 0
  then show ?case by simp
next
  case (Suc n)
  from Suc.prems obtain i' as' where
    b: "(let (next, lx1) = skipBlankSpace lx
         in if next = Some CHR '']'' \<or> next = Some CHR '',''
            then Inr (spec_Slice (as' ! 0) (as' ! 1) (as' ! 2), lx1)
            else let (t', lx2) = scan lx1 in parseSlice_loop n E i' as' t' lx2) = Inr (sel, lx')"
    by (auto elim!: bindE_InrE split: if_splits)
  obtain nx lx1 where s: "skipBlankSpace lx = (nx, lx1)" by (cases "skipBlankSpace lx")
  show ?case
  proof (cases "nx = Some CHR '']'' \<or> nx = Some CHR '',''")
    case True
    with b s show ?thesis by auto
  next
    case False
    obtain t' lx2 where "scan lx1 = (t', lx2)" by (cases "scan lx1")
    with b s False have "parseSlice_loop n E i' as' t' lx2 = Inr (sel, lx')" by simp
    from Suc.IH [OF this] show ?thesis .
  qed
qed

lemma selectors_next_ok:
  assumes k: "\<And>sels' lx' res lx''. list_all ok_Selector sels' \<Longrightarrow>
             k sels' lx' = Inr (res, lx'') \<Longrightarrow> list_all ok_Selector res"
    and sels: "list_all ok_Selector sels"
    and eq: "selectors_next E k sels lx = Inr (res, lx')"
  shows "list_all ok_Selector res"
  using eq sels k [OF sels]
  by (auto simp: selectors_next_def split: prod.splits if_splits)

lemma parseSelectors_loop_ok:
  "callees_ok C \<Longrightarrow> list_all ok_Selector sels \<Longrightarrow>
     parseSelectors_loop n E C lf sels lx = Inr (res, lx') \<Longrightarrow> list_all ok_Selector res"
proof (induction n arbitrary: sels lx res lx')
  case 0
  then show ?case by simp
next
  case (Suc n)
  note C = Suc.prems(1) and sels = Suc.prems(2) and eq = Suc.prems(3)
  have k: "list_all ok_Selector sels' \<Longrightarrow>
      parseSelectors_loop n E C lf sels' lx1 = Inr (res', lx2) \<Longrightarrow>
      list_all ok_Selector res'" for sels' lx1 res' lx2
    using Suc.IH [OF C] by blast
  obtain t lx1 where sc: "scan lx = (t, lx1)" by (cases "scan lx")
  have step: "list_all ok_Selector res"
    if "selectors_next E (parseSelectors_loop n E C lf) (sels @ [sel]) lxa = Inr (res, lx')"
      and "ok_Selector sel" for sel lxa
  proof -
    from that(2) sels have "list_all ok_Selector (sels @ [sel])" by simp
    from selectors_next_ok [OF k this that(1)] show ?thesis .
  qed
  consider (filter) "tok t = Rune CHR ''?''"
    | (wild) "tok t = Rune CHR ''*''"
    | (name) "tok t = GoString"
    | (int) "tok t = Integer"
    | (colon) "tok t = Rune CHR '':''"
    | (blank) "tok t = BlankSpace"
    | (other) "tok t \<noteq> Rune CHR ''?''" "tok t \<noteq> Rune CHR ''*''" "tok t \<noteq> GoString"
        "tok t \<noteq> Integer" "tok t \<noteq> Rune CHR '':''" "tok t \<noteq> BlankSpace"
    by blast
  then show ?case
  proof cases
    case filter
    with eq sc obtain f lx2 where a: "parseFilter E C lf lx1 = Inr (f, lx2)"
      and b: "selectors_next E (parseSelectors_loop n E C lf) (sels @ [f]) lx2 = Inr (res, lx')"
      by (auto elim!: bindE_InrE)
    from step [OF b parseFilter_ok [OF C a]] show ?thesis .
  next
    case wild
    with eq sc have
      "selectors_next E (parseSelectors_loop n E C lf) (sels @ [spec_Wildcard]) lx1 = Inr (res, lx')"
      by simp
    from step [OF this] show ?thesis by simp
  next
    case name
    with eq sc have
      "selectors_next E (parseSelectors_loop n E C lf) (sels @ [spec_Name (val t)]) lx1
         = Inr (res, lx')"
      by simp
    from step [OF this] show ?thesis by simp
  next
    case int
    obtain c lx2 where s2: "skipBlankSpace lx1 = (c, lx2)" by (cases "skipBlankSpace lx1")
    show ?thesis
    proof (cases "c = Some CHR '':''")
      case True
      with eq sc int s2 obtain slice lx3 where a: "parseSlice E lf lx2 t = Inr (slice, lx3)"
        and b: "selectors_next E (parseSelectors_loop n E C lf) (sels @ [slice]) lx3 = Inr (res, lx')"
        by (auto elim!: bindE_InrE)
      from a have "ok_Selector slice" by (auto simp: parseSlice_def dest: parseSlice_loop_ok)
      from step [OF b this] show ?thesis .
    next
      case False
      with eq sc int s2 obtain idx where
        "selectors_next E (parseSelectors_loop n E C lf) (sels @ [spec_Index idx]) lx2
           = Inr (res, lx')"
        by (auto elim!: bindE_InrE)
      from step [OF this] show ?thesis by simp
    qed
  next
    case colon
    with eq sc obtain slice lx2 where a: "parseSlice E lf lx1 t = Inr (slice, lx2)"
      and b: "selectors_next E (parseSelectors_loop n E C lf) (sels @ [slice]) lx2 = Inr (res, lx')"
      by (auto elim!: bindE_InrE)
    from a have "ok_Selector slice" by (auto simp: parseSlice_def dest: parseSlice_loop_ok)
    from step [OF b this] show ?thesis .
  next
    case blank
    with eq sc have "parseSelectors_loop n E C lf sels lx1 = Inr (res, lx')" by simp
    from k [OF sels this] show ?thesis .
  next
    case other
    with eq sc show ?thesis by simp
  qed
qed

lemma parseSelectors_ok:
  "callees_ok C \<Longrightarrow> parseSelectors E C lf lx = Inr (sels, lx') \<Longrightarrow> list_all ok_Selector sels"
  using parseSelectors_loop_ok [of C "[]" lf E lf lx sels lx']
  by (simp add: parseSelectors_def)

lemma parseDescendant_ok:
  "callees_ok C \<Longrightarrow> parseDescendant E C lf lx = Inr (seg, lx') \<Longrightarrow> ok_Segment seg"
  by (auto simp: parseDescendant_def elim!: bindE_InrE dest: parseSelectors_ok
      split: prod.splits if_splits)

lemma parseNameOrWildcard_ok:
  "parseNameOrWildcard E lx = Inr (sel, lx') \<Longrightarrow> ok_Selector sel"
  by (auto simp: parseNameOrWildcard_def split: prod.splits if_splits)

lemma parseQuery_loop_ok:
  "callees_ok C \<Longrightarrow> list_all ok_Segment segs \<Longrightarrow>
     parseQuery_loop n E C lf rt segs lx = Inr (q, lx') \<Longrightarrow> ok_PathQuery q"
proof (induction n arbitrary: segs lx)
  case 0
  then show ?case by simp
next
  case (Suc n)
  note C = Suc.prems(1) and segs = Suc.prems(2) and eq = Suc.prems(3)
  consider (bracket) "lex_r lx = Some CHR ''[''"
    | (dot) "lex_r lx = Some CHR ''.''"
    | (blank) "lex_r lx \<noteq> Some CHR ''[''" "lex_r lx \<noteq> Some CHR ''.''"
        "isBlankSpace (lex_r lx)
          \<and> (peekPastBlankSpace lx = Some CHR ''.'' \<or> peekPastBlankSpace lx = Some CHR ''['')"
    | (finish) "lex_r lx \<noteq> Some CHR ''[''" "lex_r lx \<noteq> Some CHR ''.''"
        "\<not> (isBlankSpace (lex_r lx)
          \<and> (peekPastBlankSpace lx = Some CHR ''.'' \<or> peekPastBlankSpace lx = Some CHR ''[''))"
    by blast
  then show ?case
  proof cases
    case bracket
    with eq obtain lx1 sels lx2 where a: "parseSelectors E C lf lx1 = Inr (sels, lx2)"
      and b: "parseQuery_loop n E C lf rt (segs @ [spec_Child sels]) lx2 = Inr (q, lx')"
      by (auto elim!: bindE_InrE split: prod.splits)
    from parseSelectors_ok [OF C a] segs have "list_all ok_Segment (segs @ [spec_Child sels])"
      by simp
    from Suc.IH [OF C this b] show ?thesis .
  next
    case dot
    obtain t0 lx1 where s1: "scan lx = (t0, lx1)" by (cases "scan lx")
    show ?thesis
    proof (cases "lex_r lx1 = Some CHR ''.''")
      case True
      with eq dot s1 obtain lx2 seg lx3 where a: "parseDescendant E C lf lx2 = Inr (seg, lx3)"
        and b: "parseQuery_loop n E C lf rt (segs @ [seg]) lx3 = Inr (q, lx')"
        by (auto elim!: bindE_InrE split: prod.splits)
      from parseDescendant_ok [OF C a] segs have "list_all ok_Segment (segs @ [seg])" by simp
      from Suc.IH [OF C this b] show ?thesis .
    next
      case False
      with eq dot s1 obtain sel lx2 where a: "parseNameOrWildcard E lx1 = Inr (sel, lx2)"
        and b: "parseQuery_loop n E C lf rt (segs @ [spec_Child [sel]]) lx2 = Inr (q, lx')"
        by (auto elim!: bindE_InrE)
      from parseNameOrWildcard_ok [OF a] segs
      have "list_all ok_Segment (segs @ [spec_Child [sel]])" by simp
      from Suc.IH [OF C this b] show ?thesis .
    qed
  next
    case blank
    with eq have "parseQuery_loop n E C lf rt segs (scanBlankSpace lx) = Inr (q, lx')" by simp
    from Suc.IH [OF C segs this] show ?thesis .
  next
    case finish
    with eq segs show ?thesis by auto
  qed
qed

lemma parseQuery_ok:
  "callees_ok C \<Longrightarrow> parseQuery E C lf rt lx = Inr (q, lx') \<Longrightarrow> ok_PathQuery q"
  using parseQuery_loop_ok [of C "[]" lf E lf rt lx q lx']
  by (simp add: parseQuery_def)

lemma descent_ok: "callees_ok (descent d E lf)"
proof (induction d)
  case 0
  show ?case by (simp add: callees_ok_def)
next
  case (Suc d)
  show ?case
    unfolding callees_ok_def
    using parseQuery_ok [OF Suc] parseLogicalOrExpr_ok [OF Suc] parseFunction_ok [OF Suc]
    by (simp add: Let_def)
qed

lemma Parse_ok: "Parse E depth lf lx = Inr q \<Longrightarrow> ok_PathQuery q"
  by (auto simp: Parse_def elim!: bindE_InrE dest: parseQuery_ok [OF descent_ok]
      split: prod.splits if_splits)

subsection \<open>The two checks\<close>

lemma parse_function_length:
  "parseFunction E0 (descent 2 E0 12) 12 (ident ''length'' 3)
      \<lparr>toks = [punct CHR ''('' 9, punct CHR ''@'' 10, punct CHR ''.'' 11,
         ident ''a'' 12, punct CHR '')'' 13, punct CHR '']'' 14], end_pos = 15\<rparr>
   = Inr (spec_FunctionExpr ''length'' FuncValue [ArgSingularQuery False [spec_Name ''a'']],
          \<lparr>toks = [punct CHR '']'' 14], end_pos = 15\<rparr>)"
  by code_simp

lemma parse_function_match:
  "parseFunction E0 (descent 2 E0 12) 12 (ident ''match'' 10)
      \<lparr>toks = [punct CHR ''('' 15, punct CHR ''@'' 16, punct CHR ''.'' 17,
         ident ''b'' 18, punct CHR '','' 19, blank 20, gostring ''x'' 21, punct CHR '')'' 24,
         punct CHR '']'' 25], end_pos = 26\<rparr>
   = Inr (spec_FunctionExpr ''match'' FuncLogical
            [ArgSingularQuery False [spec_Name ''b''], ArgLiteral (LitString ''x'')],
          \<lparr>toks = [punct CHR '']'' 25], end_pos = 26\<rparr>)"
  by code_simp

lemma length_compared_accepted:
  "Parse E0 3 12 query_length_compared =
     Inr (spec_Query True
       [spec_Child
         [spec_Filter
           (spec_LogicalOr
             [[spec_ComparisonExpr
                (CompFunction (spec_FunctionExpr ''length'' FuncValue
                  [ArgSingularQuery False [spec_Name ''a'']]))
                EqualTo (CompLiteral (LitInt 2))]])]])"
  by code_simp

text \<open>
  In every path that \<^verbatim>\<open>Parse\<close> accepts, every function call that is a basic expression
  by itself has the declared result type Logical and every function call that is an
  operand of a comparison has another declared result type. For a function call that
  \<^verbatim>\<open>parseFunction\<close> has parsed to \<open>f\<close>: where the call begins a basic expression
  (\<^verbatim>\<open>parseFunctionFilterExpr\<close>), with the result type Logical it is accepted as a test, and
  with another result type and no comparison operator after it parsing fails with
  "missing comparison to function result" at the next token; where the call is the
  right operand of a comparison (\<^verbatim>\<open>parseComparableVal\<close>), with the result type Logical
  parsing fails with "cannot compare result of logical function" at the function name,
  and with another result type it is accepted as a comparable.
\<close>

lemma result_type_checks:
  "(Parse E depth lf lx0 = Inr q \<longrightarrow> ok_PathQuery q)
   \<and> (parseFunction E C lf t lx = Inr (f, lx1) \<longrightarrow>
        (ResultType_of f = FuncLogical \<longrightarrow>
            parseFunctionFilterExpr E C lf t lx = Inr (spec_FuncExpr f, lx1))
      \<and> (ResultType_of f \<noteq> FuncLogical \<and> \<not> is_comp_rune (fst (skipBlankSpace lx1)) \<longrightarrow>
            parseFunctionFilterExpr E C lf t lx =
              Inl (makeError (fst (scan (snd (skipBlankSpace lx1))))
                     ''missing comparison to function result''))
      \<and> (tok t = Identifier \<and> lex_r lx = Some CHR ''('' \<and> ResultType_of f = FuncLogical \<longrightarrow>
            parseComparableVal E C lf t lx =
              Inl (makeError t ''cannot compare result of logical function''))
      \<and> (tok t = Identifier \<and> lex_r lx = Some CHR ''('' \<and> ResultType_of f \<noteq> FuncLogical \<longrightarrow>
            parseComparableVal E C lf t lx = Inr (CompFunction f, lx1)))"
proof (intro conjI impI)
  assume "Parse E depth lf lx0 = Inr q"
  then show "ok_PathQuery q" by (rule Parse_ok)
next
  assume "parseFunction E C lf t lx = Inr (f, lx1)" "ResultType_of f = FuncLogical"
  then show "parseFunctionFilterExpr E C lf t lx = Inr (spec_FuncExpr f, lx1)"
    by (simp add: parseFunctionFilterExpr_def)
next
  assume "parseFunction E C lf t lx = Inr (f, lx1)"
    "ResultType_of f \<noteq> FuncLogical \<and> \<not> is_comp_rune (fst (skipBlankSpace lx1))"
  then show "parseFunctionFilterExpr E C lf t lx =
      Inl (makeError (fst (scan (snd (skipBlankSpace lx1))))
             ''missing comparison to function result'')"
    by (auto simp: parseFunctionFilterExpr_def split: prod.splits)
next
  assume "parseFunction E C lf t lx = Inr (f, lx1)"
    "tok t = Identifier \<and> lex_r lx = Some CHR ''('' \<and> ResultType_of f = FuncLogical"
  then show "parseComparableVal E C lf t lx =
      Inl (makeError t ''cannot compare result of logical function'')"
    by (simp add: parseComparableVal_def is_literal_tok_def)
next
  assume "parseFunction E C lf t lx = Inr (f, lx1)"
    "tok t = Identifier \<and> lex_r lx = Some CHR ''('' \<and> ResultType_of f \<noteq> FuncLogical"
  then show "parseComparableVal E C lf t lx = Inr (CompFunction f, lx1)"
    by (simp add: parseComparableVal_def is_literal_tok_def)
qed

text \<open>
  A function call that is an argument of another function does not pass these checks;
  \<^verbatim>\<open>NewFunctionExpr\<close> validates it against the parameter types of that function. In
  \<^verbatim>\<open>$[?match(value(@.a), "x")]\<close> the call of \<^verbatim>\<open>value\<close> has the result type Value and is an
  argument of \<^verbatim>\<open>match\<close>.
\<close>

lemma argument_call_accepted:
  "Parse E0 3 12 query_match_value =
     Inr (spec_Query True
       [spec_Child
         [spec_Filter
           (spec_LogicalOr
             [[spec_FuncExpr
                (spec_FunctionExpr ''match'' FuncLogical
                  [ArgFunction
                    (spec_FunctionExpr ''value'' FuncValue
                      [ArgSingularQuery False [spec_Name ''a'']]),
                   ArgLiteral (LitString ''x'')])]])]])"
  by code_simp

text \<open>
  A logical function as an operand: \<^verbatim>\<open>$[?@.a == match(@.b, "x")]\<close> fails in
  \<^verbatim>\<open>parseComparableVal\<close>; in \<^verbatim>\<open>$[?match(@.b, "x") == true]\<close> the call is taken as a test
  and the operator after it is an unexpected token for \<^verbatim>\<open>parseSelectors\<close>.
\<close>

lemma compare_with_match_rejected:
  "Parse E0 3 12 query_compare_match =
     Inl ''jsonpath: cannot compare result of logical function at position 11''"
  by code_simp

lemma match_compared_rejected:
  "Parse E0 3 12 query_match_compare = Inl ''jsonpath: unexpected = at position 20''"
  by code_simp

subsection \<open>A function call after the negation sign\<close>

text \<open>
  \<^verbatim>\<open>parseBasicExpr\<close>, \<^verbatim>\<open>case '!'\<close>: an identifier after \<^verbatim>\<open>!\<close> goes to \<^verbatim>\<open>parseFunction\<close> and the
  call is wrapped in \<^verbatim>\<open>NotFuncExpr\<close> at once, whatever its declared result type; the test
  of \<^verbatim>\<open>parseFunctionFilterExpr\<close> is not made on this path.
\<close>

lemma negated_call_unchecked:
  assumes "toks lx = bang # next # rest"
    and "tok bang = Rune CHR ''!''"
    and "tok next = Identifier"
    and "first_rune next \<noteq> Some CHR ''(''"
    and "parseFunction E C lf next (lx\<lparr>toks := rest\<rparr>) = Inr (f, lx')"
  shows "parseBasicExpr E C lf lx = Inr (spec_NotFuncExpr f, lx')"
  using assms
  by (simp add: parseBasicExpr_def skipBlankSpace_def scanBlankSpace_def scan_def lex_r_def)

text \<open>
  C6. A function call whose declared result type is not Logical and that is not the
  operand of a comparison is a parse error; this fails after \<^verbatim>\<open>!\<close>. The path
  \<^verbatim>\<open>$[?!length(@.a)]\<close> is accepted, with the call of \<^verbatim>\<open>length\<close>, of the declared result type
  Value and compared with nothing, as a negated test; the same call without \<^verbatim>\<open>!\<close>, in
  \<^verbatim>\<open>$[?length(@.a)]\<close>, is the parse error "missing comparison to function result".
\<close>

theorem negated_function_call_accepted:
  "Parse E0 3 12 query_not_length =
     Inr (spec_Query True
       [spec_Child
         [spec_Filter
           (spec_LogicalOr
             [[spec_NotFuncExpr
                (spec_FunctionExpr ''length'' FuncValue
                  [ArgSingularQuery False [spec_Name ''a'']])]])]])
   \<and> ResultType_of (spec_FunctionExpr ''length'' FuncValue
         [ArgSingularQuery False [spec_Name ''a'']]) \<noteq> FuncLogical
   \<and> Parse E0 3 12 query_length =
     Inl ''jsonpath: missing comparison to function result at position 15''"
  by code_simp

section \<open>Index and slice integers through the parser\<close>

text \<open>
  The scenario of the specification: \<^verbatim>\<open>-0\<close> as an index is rejected at position 3 of
  \<^verbatim>\<open>$[-0]\<close>; it is rejected in a slice as well, both going through \<^verbatim>\<open>parsePathInt\<close>.
\<close>

lemma minus_zero_index_rejected:
  "Parse E0 3 12 query_minus_zero =
     Inl (''jsonpath: invalid integer path value '' @ [CHR 0x22] @ ''-0'' @ [CHR 0x22]
          @ '' at position 3'')"
  by code_simp

lemma minus_zero_slice_rejected:
  "Parse E0 3 12 query_slice_minus_zero =
     Inl (''jsonpath: invalid integer path value '' @ [CHR 0x22] @ ''-0'' @ [CHR 0x22]
          @ '' at position 5'')"
  by code_simp

lemma slices_accepted:
  "Parse E0 3 12 query_slice_1_5_2 =
     Inr (spec_Query True [spec_Child [spec_Slice (Some 1) (Some 5) (Some 2)]])
   \<and> Parse E0 3 12 query_slice_reverse =
     Inr (spec_Query True [spec_Child [spec_Slice None None (Some (- 1))]])"
  by code_simp

end
